theory Spec2Isabelle
  imports Complex_Main "HOL-Library.Sublist" "HOL-Library.Word"
begin

section \<open>Values shared by both servers\<close>

text \<open>
  An exception is represented by the text \<open>str(e)\<close> that the handlers log or return.
  Only exceptions of class \<open>Exception\<close> are modelled: they are the ones an
  \<open>except Exception\<close> clause catches.
\<close>

datatype exn = Exception string

fun str_exn :: "exn \<Rightarrow> string" where
  "str_exn (Exception m) = m"

datatype json = JStr string | JNum real | JList "json list" | JObj "(string \<times> json) list"

text \<open>What \<open>web.json_response(d)\<close> and \<open>jsonify(d), code\<close> build.\<close>

record response =
  status :: nat
  content_type :: string
  body :: json

definition json_response :: "(string \<times> json) list \<Rightarrow> response" where
  "json_response d = \<lparr>status = 200, content_type = ''application/json'', body = JObj d\<rparr>"

definition jsonify :: "(string \<times> json) list \<Rightarrow> nat \<Rightarrow> response" where
  "jsonify d code = \<lparr>status = code, content_type = ''application/json'', body = JObj d\<rparr>"

fun json_keys :: "json \<Rightarrow> string list" where
  "json_keys (JObj kvs) = map fst kvs"
| "json_keys _ = []"

text \<open>
  \<open>str.lower()\<close> on code points below 256, the range of HOL's \<open>char\<close>: the ASCII
  capitals and the Latin-1 capitals (all of \<open>0xC0..0xDE\<close> but the multiplication sign)
  move up by 32, every other character stays.
\<close>

definition lower_char :: "char \<Rightarrow> char" where
  "lower_char c =
     (let n = (of_char c :: nat)
      in if (65 \<le> n \<and> n \<le> 90) \<or> (192 \<le> n \<and> n \<le> 222 \<and> n \<noteq> 215)
         then char_of (n + 32) else c)"

definition lower :: "string \<Rightarrow> string" where
  "lower s = map lower_char s"

text \<open>Decimal text of a Python int, as an f-string prints it.\<close>

definition digit_char :: "nat \<Rightarrow> char" where
  "digit_char d = char_of (48 + d)"

fun str_nat :: "nat \<Rightarrow> string" where
  "str_nat n = (if n < 10 then [digit_char n] else str_nat (n div 10) @ [digit_char (n mod 10)])"

definition str_int :: "int \<Rightarrow> string" where
  "str_int i = (if i < 0 then CHR ''-'' # str_nat (nat (- i)) else str_nat (nat i))"

section \<open>railway\_wrapper.py: the data\<close>

datatype loglevel = INFO | ERROR_LEVEL

type_synonym logline = "loglevel \<times> string"

text \<open>A child process as \<open>subprocess.Popen\<close> sees it; \<open>returncode = None\<close> while it runs.\<close>

record proc =
  argv :: "string list"
  stdout_pipe :: bool
  stderr_pipe :: bool
  returncode :: "int option"

text \<open>\<open>aiohttp.WSMsgType\<close>, and the Python values a message carries as \<open>msg.data\<close>.\<close>

datatype WSMsgType = CONTINUATION | TEXT | BINARY | PING | PONG | CLOSE | CLOSING | CLOSED | ERROR

datatype pydata = PyStr string | PyBytes "8 word list" | PyOther

record WSMessage =
  mtype :: WSMsgType
  mdata :: pydata

text \<open>What the peer of a connection gets: a text frame or a binary frame.\<close>

datatype frame = TextFrame string | BinaryFrame "8 word list"

datatype loop_status = NotStarted | Running | Finished

datatype conn_status = NotConnected | Connected | ConnClosed

text \<open>
  One record holds the wrapper object (\<open>port\<close>, \<open>whisper_server\<close>), the part of the
  world it acts on (the processes it has spawned, the time it has slept, the log) and the
  connection being handled (the external socket \<open>ws\<close>, the internal \<open>server_ws\<close>,
  the two forwarding loops and what each peer has been sent).
  \<open>whisper_server\<close> is the \<open>Popen\<close> handle: the index of the process in \<open>procs\<close>.
\<close>

record state =
  port :: int
  whisper_server :: "nat option"
  procs :: "proc list"
  slept :: nat
  logs :: "logline list"
  ws_prepared :: bool
  ws_closed :: bool
  ws_exception :: "exn option"
  server_ws :: conn_status
  c2s :: loop_status
  s2c :: loop_status
  to_server :: "frame list"
  to_client :: "frame list"

definition log_info :: "string \<Rightarrow> state \<Rightarrow> state" where
  "log_info m s = s\<lparr>logs := logs s @ [(INFO, m)]\<rparr>"

definition log_error :: "string \<Rightarrow> state \<Rightarrow> state" where
  "log_error m s = s\<lparr>logs := logs s @ [(ERROR_LEVEL, m)]\<rparr>"

text \<open>The wrapper as lines 25 to 27 of \<open>__init__\<close> set it: no process tracked, nothing spawned yet.\<close>

definition init :: "int \<Rightarrow> state" where
  "init p = \<lparr>port = p, whisper_server = None, procs = [], slept = 0, logs = [],
     ws_prepared = False, ws_closed = False, ws_exception = None,
     server_ws = NotConnected, c2s = NotStarted, s2c = NotStarted,
     to_server = [], to_client = []\<rparr>"

text \<open>
  What happens around one call of the handler: the clock, the interpreter path, which of
  the library calls raise, and everything that arrives on the two connections while the
  relay runs, in order of arrival.
\<close>

datatype event =
    ClientMsg WSMessage "exn option"
  | ClientStop
  | ClientRaise exn
  | ServerMsg pydata "exn option"
  | ServerStop
  | ServerRaise exn

record env =
  now :: real
  sys_executable :: string
  prepare_exc :: "exn option"
  popen_exc :: "exn option"
  import_exc :: "exn option"
  connect_exc :: "exn option"
  events :: "event list"
  close_exc :: "exn option"

record request =
  meth :: string
  path :: string
  headers :: "(string \<times> string) list"

text \<open>\<open>request.headers.get(k, d)\<close>: header names compare without case, the first match wins.\<close>

definition headers_get :: "(string \<times> string) list \<Rightarrow> string \<Rightarrow> string \<Rightarrow> string" where
  "headers_get hs k d =
     (case find (\<lambda>(n, v). lower n = lower k) hs of None \<Rightarrow> d | Some (n, v) \<Rightarrow> v)"

section \<open>The supervisor: ensure\_whisper\_server\<close>

text \<open>\<open>Popen.poll()\<close>: the return code of the process, \<open>None\<close> while it is alive.\<close>

definition poll :: "state \<Rightarrow> nat \<Rightarrow> int option" where
  "poll s h = (if h < length (procs s) then returncode (procs s ! h) else None)"

text \<open>The test of line 82: \<open>self.whisper_server is None or self.whisper_server.poll() is not None\<close>.\<close>

definition needs_spawn :: "state \<Rightarrow> bool" where
  "needs_spawn s = (case whisper_server s of None \<Rightarrow> True | Some h \<Rightarrow> poll s h \<noteq> None)"

definition backend_argv :: "string \<Rightarrow> string list" where
  "backend_argv exe = [exe, ''run_server.py'', ''--port'', ''9091'', ''--backend'', ''faster_whisper'']"

definition new_proc :: "string \<Rightarrow> proc" where
  "new_proc exe = \<lparr>argv = backend_argv exe, stdout_pipe = True, stderr_pipe = True, returncode = None\<rparr>"

text \<open>
  The coroutine up to its only suspension point, \<open>await asyncio.sleep(3)\<close>. No \<open>await\<close>
  stands between the test and the assignment of the new handle, so the event loop runs
  this part in one piece. The result is the exception \<open>Popen\<close> raised, or whether the
  coroutine is now suspended in the sleep (\<open>True\<close>) or has returned (\<open>False\<close>).
\<close>

definition ensure_begin :: "string \<Rightarrow> exn option \<Rightarrow> state \<Rightarrow> (exn + bool) \<times> state" where
  "ensure_begin exe po s =
     (if needs_spawn s then
        (let s1 = log_info ''Starting WhisperLive backend server...'' s
         in case po of
              Some e \<Rightarrow> (Inl e, s1)
            | None \<Rightarrow> (Inr True, s1\<lparr>procs := procs s1 @ [new_proc exe],
                                      whisper_server := Some (length (procs s1))\<rparr>))
      else (Inr False, s))"

text \<open>The rest of the coroutine, once the three seconds are over.\<close>

definition ensure_resume :: "state \<Rightarrow> state" where
  "ensure_resume s = log_info ''WhisperLive backend server started'' (s\<lparr>slept := slept s + 3\<rparr>)"

definition ensure_whisper_server :: "env \<Rightarrow> state \<Rightarrow> (exn + unit) \<times> state" where
  "ensure_whisper_server ev s =
     (case ensure_begin (sys_executable ev) (popen_exc ev) s of
        (Inl e, s1) \<Rightarrow> (Inl e, s1)
      | (Inr True, s1) \<Rightarrow> (Inr (), ensure_resume s1)
      | (Inr False, s1) \<Rightarrow> (Inr (), s1))"

section \<open>The health endpoint and the routes\<close>

definition health_check :: "env \<Rightarrow> request \<Rightarrow> state \<Rightarrow> response \<times> state" where
  "health_check ev req s =
     (json_response
        [(''status'', JStr ''healthy''),
         (''service'', JStr ''WhisperLive''),
         (''backend'', JStr ''faster_whisper''),
         (''timestamp'', JNum (now ev))],
      log_info (''Health check: '' @ meth req @ '' '' @ path req) s)"

datatype handler = HealthCheck | WebsocketHandler

text \<open>
  aiohttp's \<open>UrlDispatcher\<close>, as far as \<open>setup_routes\<close> uses it: a list of resources,
  each a path with the routes registered on it, a route being a method and its handler.
  \<open>resource_add_route\<close> is \<open>Resource.add_route\<close>: it refuses a method that the
  resource already serves (or a resource that serves every method, \<open>*\<close>) with a
  \<open>RuntimeError\<close>.
\<close>

type_synonym resource = "string \<times> (string \<times> handler) list"

type_synonym router = "resource list"

definition resource_add_route :: "string \<Rightarrow> handler \<Rightarrow> (string \<times> handler) list \<Rightarrow> exn + (string \<times> handler) list" where
  "resource_add_route m h rs =
     (case find (\<lambda>(m', h'). m' = m \<or> m' = ''*'') rs of
        Some (m', h') \<Rightarrow>
          Inl (Exception (''Added route will never be executed, method '' @ m' @ '' is already registered''))
      | None \<Rightarrow> Inr (rs @ [(m, h)]))"

text \<open>\<open>add_resource\<close>: the resource added last is used again when it has the same path.\<close>

definition add_resource :: "string \<Rightarrow> router \<Rightarrow> router" where
  "add_resource p r = (if r \<noteq> [] \<and> fst (last r) = p then r else r @ [(p, [])])"

definition add_route :: "string \<Rightarrow> string \<Rightarrow> handler \<Rightarrow> router \<Rightarrow> exn + router" where
  "add_route m p h r =
     (let r1 = add_resource p r
      in case resource_add_route m h (snd (last r1)) of
           Inl e \<Rightarrow> Inl e
         | Inr rs \<Rightarrow> Inr (butlast r1 @ [(p, rs)]))"

definition add_head :: "string \<Rightarrow> handler \<Rightarrow> router \<Rightarrow> exn + router" where
  "add_head p h r = add_route ''HEAD'' p h r"

text \<open>\<open>add_get\<close> with its default \<open>allow_head=True\<close>: the \<open>HEAD\<close> route first, then \<open>GET\<close>.\<close>

definition add_get :: "string \<Rightarrow> handler \<Rightarrow> router \<Rightarrow> exn + router" where
  "add_get p h r =
     (case add_route ''HEAD'' p h r of
        Inl e \<Rightarrow> Inl e
      | Inr r1 \<Rightarrow> add_route ''GET'' p h r1)"

text \<open>\<open>setup_routes\<close> (lines 33 to 35), on the empty router of a new application.\<close>

definition setup_routes :: "exn + router" where
  "setup_routes =
     (case add_get ''/health'' HealthCheck [] of
        Inl e \<Rightarrow> Inl e
      | Inr r1 \<Rightarrow>
          (case add_head ''/health'' HealthCheck r1 of
             Inl e \<Rightarrow> Inl e
           | Inr r2 \<Rightarrow> add_get ''/'' WebsocketHandler r2))"

text \<open>The handler a router gives a request: the first resource of that path, its route of that method.\<close>

definition resolve :: "router \<Rightarrow> string \<Rightarrow> string \<Rightarrow> handler option" where
  "resolve r m p =
     (case find (\<lambda>(p', rs). p' = p) r of
        None \<Rightarrow> None
      | Some (p', rs) \<Rightarrow> map_option snd (find (\<lambda>(m', h). m' = m \<or> m' = ''*'') rs))"

text \<open>
  \<open>RailwayWhisperLiveWrapper.__init__\<close>: the fields, then \<open>setup_routes\<close>, whose
  exception leaves the constructor.
\<close>

definition construct :: "int \<Rightarrow> exn + state \<times> router" where
  "construct p = (case setup_routes of Inl e \<Rightarrow> Inl e | Inr r \<Rightarrow> Inr (init p, r))"

section \<open>The relay: proxy\_websocket\<close>

text \<open>
  \<open>server_ws.send(data)\<close> of the websockets library: a \<open>str\<close> goes out as a text
  frame, \<open>bytes\<close> as a binary frame, anything else is a \<open>TypeError\<close>. The second
  argument says whether the call raises (the connection is gone).
\<close>

definition ws_send :: "pydata \<Rightarrow> exn option \<Rightarrow> exn + frame" where
  "ws_send d r =
     (case r of
        Some e \<Rightarrow> Inl e
      | None \<Rightarrow> (case d of
                   PyStr t \<Rightarrow> Inr (TextFrame t)
                 | PyBytes b \<Rightarrow> Inr (BinaryFrame b)
                 | PyOther \<Rightarrow> Inl (Exception ''TypeError'')))"

text \<open>\<open>client_ws.send_str\<close> and \<open>client_ws.send_bytes\<close> of aiohttp.\<close>

definition send_str :: "string \<Rightarrow> exn option \<Rightarrow> exn + frame" where
  "send_str t r = (case r of Some e \<Rightarrow> Inl e | None \<Rightarrow> Inr (TextFrame t))"

definition send_bytes :: "8 word list \<Rightarrow> exn option \<Rightarrow> exn + frame" where
  "send_bytes b r = (case r of Some e \<Rightarrow> Inl e | None \<Rightarrow> Inr (BinaryFrame b))"

fun str_exn_option :: "exn option \<Rightarrow> string" where
  "str_exn_option None = ''None''"
| "str_exn_option (Some e) = str_exn e"

text \<open>The \<open>except\<close> clauses of the two loops: log, and the coroutine ends.\<close>

definition c2s_except :: "exn \<Rightarrow> state \<Rightarrow> state" where
  "c2s_except e s = (log_error (''Client to server error: '' @ str_exn e) s)\<lparr>c2s := Finished\<rparr>"

definition s2c_except :: "exn \<Rightarrow> state \<Rightarrow> state" where
  "s2c_except e s = (log_error (''Server to client error: '' @ str_exn e) s)\<lparr>s2c := Finished\<rparr>"

text \<open>One turn of the loop of \<open>client_to_server\<close> (lines 105 to 111), on the message \<open>msg\<close>.\<close>

definition client_to_server_msg :: "WSMessage \<Rightarrow> exn option \<Rightarrow> state \<Rightarrow> state" where
  "client_to_server_msg msg r s =
     (if mtype msg = TEXT then
        (case ws_send (mdata msg) r of
           Inr f \<Rightarrow> s\<lparr>to_server := to_server s @ [f]\<rparr>
         | Inl e \<Rightarrow> c2s_except e s)
      else if mtype msg = BINARY then
        (case ws_send (mdata msg) r of
           Inr f \<Rightarrow> s\<lparr>to_server := to_server s @ [f]\<rparr>
         | Inl e \<Rightarrow> c2s_except e s)
      else if mtype msg = ERROR then
        (log_error (''WebSocket error: '' @ str_exn_option (ws_exception s)) s)\<lparr>c2s := Finished\<rparr>
      else s)"

text \<open>One turn of the loop of \<open>server_to_client\<close> (lines 118 to 121).\<close>

definition server_to_client_msg :: "pydata \<Rightarrow> exn option \<Rightarrow> state \<Rightarrow> state" where
  "server_to_client_msg msg r s =
     (case msg of
        PyStr t \<Rightarrow> (case send_str t r of
                     Inr f \<Rightarrow> s\<lparr>to_client := to_client s @ [f]\<rparr>
                   | Inl e \<Rightarrow> s2c_except e s)
      | PyBytes b \<Rightarrow> (case send_bytes b r of
                       Inr f \<Rightarrow> s\<lparr>to_client := to_client s @ [f]\<rparr>
                     | Inl e \<Rightarrow> s2c_except e s)
      | PyOther \<Rightarrow> s)"

text \<open>
  The two coroutines under \<open>asyncio.gather\<close>. Each waits for its own connection only; an
  event wakes the loop that reads that connection, if it still runs, and is lost
  otherwise. \<open>ClientStop\<close> and \<open>ServerStop\<close> are the end of the iteration (the peer has
  closed), \<open>ClientRaise\<close> and \<open>ServerRaise\<close> an exception out of it.
\<close>

fun relay_step :: "event \<Rightarrow> state \<Rightarrow> state" where
  "relay_step (ClientMsg msg r) s = (if c2s s = Running then client_to_server_msg msg r s else s)"
| "relay_step ClientStop s = (if c2s s = Running then s\<lparr>c2s := Finished\<rparr> else s)"
| "relay_step (ClientRaise e) s = (if c2s s = Running then c2s_except e s else s)"
| "relay_step (ServerMsg msg r) s = (if s2c s = Running then server_to_client_msg msg r s else s)"
| "relay_step ServerStop s = (if s2c s = Running then s\<lparr>s2c := Finished\<rparr> else s)"
| "relay_step (ServerRaise e) s = (if s2c s = Running then s2c_except e s else s)"

definition relay :: "event list \<Rightarrow> state \<Rightarrow> state" where
  "relay evs s = fold relay_step evs s"

text \<open>\<open>asyncio.gather\<close> returns when both coroutines have.\<close>

definition gather_done :: "state \<Rightarrow> bool" where
  "gather_done s = (c2s s = Finished \<and> s2c s = Finished)"

text \<open>
  \<open>proxy_websocket\<close>. The import stands before the \<open>try\<close>, so its failure leaves the
  function; a failure of \<open>websockets.connect\<close> is caught and logged. \<open>events ev\<close> is all
  that ever arrives on the two connections: when it is used up and a loop still waits,
  \<open>gather\<close> never returns, and the result is \<open>None\<close>. Leaving the \<open>async with\<close> closes
  the internal connection.
\<close>

definition proxy_websocket :: "env \<Rightarrow> state \<Rightarrow> (exn + unit) option \<times> state" where
  "proxy_websocket ev s =
     (case import_exc ev of
        Some e \<Rightarrow> (Some (Inl e), s)
      | None \<Rightarrow>
          (case connect_exc ev of
             Some e \<Rightarrow> (Some (Inr ()), log_error (''Proxy error: '' @ str_exn e) s)
           | None \<Rightarrow>
               (let s1 = s\<lparr>server_ws := Connected, c2s := Running, s2c := Running\<rparr>;
                    s2 = relay (events ev) s1
                in if gather_done s2 then (Some (Inr ()), s2\<lparr>server_ws := ConnClosed\<rparr>)
                   else (None, s2))))"

section \<open>The connection handler: websocket\_handler\<close>

datatype outcome = Responded response | ReturnedWs | Raised exn

definition service_info :: "state \<Rightarrow> response" where
  "service_info s =
     json_response
       [(''service'', JStr ''WhisperLive WebSocket Server''),
        (''status'', JStr ''running''),
        (''backend'', JStr ''faster_whisper''),
        (''websocket_url'', JStr (''ws://localhost:'' @ str_int (port s) @ ''/''))]"

text \<open>The \<open>except Exception\<close> clause of the handler, followed by its \<open>finally\<close>.\<close>

definition handler_except :: "env \<Rightarrow> exn \<Rightarrow> state \<Rightarrow> outcome option \<times> state" where
  "handler_except ev e s =
     (let s1 = log_error (''WebSocket error: '' @ str_exn e) s
      in case close_exc ev of
           Some e' \<Rightarrow> (Some (Raised e'), log_info ''WebSocket connection closed'' s1)
         | None \<Rightarrow> (Some ReturnedWs, log_info ''WebSocket connection closed'' (s1\<lparr>ws_closed := True\<rparr>)))"

text \<open>\<open>None\<close> is a handler that never returns.\<close>

definition websocket_handler :: "env \<Rightarrow> request \<Rightarrow> state \<Rightarrow> outcome option \<times> state" where
  "websocket_handler ev req s =
     (if lower (headers_get (headers req) ''upgrade'' []) \<noteq> ''websocket'' then
        (Some (Responded (service_info s)), s)
      else
        (case prepare_exc ev of
           Some e \<Rightarrow> (Some (Raised e), s)
         | None \<Rightarrow>
             (let s1 = log_info ''New WebSocket connection established'' (s\<lparr>ws_prepared := True\<rparr>)
              in case ensure_whisper_server ev s1 of
                   (Inl e, s2) \<Rightarrow> handler_except ev e s2
                 | (Inr u, s2) \<Rightarrow>
                     (case proxy_websocket ev s2 of
                        (None, s3) \<Rightarrow> (None, s3)
                      | (Some (Inl e), s3) \<Rightarrow> handler_except ev e s3
                      | (Some (Inr v), s3) \<Rightarrow>
                          (Some ReturnedWs, log_info ''WebSocket connection closed'' s3)))))"

section \<open>Several connections at once\<close>

text \<open>
  Each upgrade request is a task of the one event loop. A task runs until its next
  \<open>await\<close>; for the supervisor's state the only one that matters is the sleep inside
  \<open>ensure_whisper_server\<close>. \<open>Resume i po\<close> lets task \<open>i\<close> run its next piece (\<open>po\<close> says
  whether \<open>Popen\<close> raises, should the piece call it), \<open>ProcExit h rc\<close> is the process with
  handle \<open>h\<close> ending with code \<open>rc\<close>.
\<close>

datatype pc = AtEnsure | Sleeping | Ready | Failed exn

datatype sched = Resume nat "exn option" | ProcExit nat int

definition proc_exit :: "nat \<Rightarrow> int \<Rightarrow> state \<Rightarrow> state" where
  "proc_exit h rc s =
     (if h < length (procs s) \<and> returncode (procs s ! h) = None
      then s\<lparr>procs := (procs s)[h := (procs s ! h)\<lparr>returncode := Some rc\<rparr>]\<rparr>
      else s)"

fun sched_step :: "string \<Rightarrow> sched \<Rightarrow> state \<times> pc list \<Rightarrow> state \<times> pc list" where
  "sched_step exe (Resume i po) (s, ts) =
     (if i < length ts then
        (case ts ! i of
           AtEnsure \<Rightarrow>
             (case ensure_begin exe po s of
                (Inl e, s1) \<Rightarrow> (s1, ts[i := Failed e])
              | (Inr True, s1) \<Rightarrow> (s1, ts[i := Sleeping])
              | (Inr False, s1) \<Rightarrow> (s1, ts[i := Ready]))
         | Sleeping \<Rightarrow> (ensure_resume s, ts[i := Ready])
         | Ready \<Rightarrow> (s, ts)
         | Failed e \<Rightarrow> (s, ts))
      else (s, ts))"
| "sched_step exe (ProcExit h rc) (s, ts) = (proc_exit h rc s, ts)"

definition run_sched :: "string \<Rightarrow> sched list \<Rightarrow> state \<times> pc list \<Rightarrow> state \<times> pc list" where
  "run_sched exe evs c = fold (sched_step exe) evs c"

text \<open>\<open>n\<close> upgrade requests accepted before any backend process exists.\<close>

definition arrivals :: "int \<Rightarrow> nat \<Rightarrow> state \<times> pc list" where
  "arrivals p n = (init p, replicate n AtEnsure)"

definition alive :: "proc \<Rightarrow> bool" where
  "alive q = (returncode q = None)"

definition live_procs :: "state \<Rightarrow> proc list" where
  "live_procs s = filter alive (procs s)"

fun is_exit :: "sched \<Rightarrow> bool" where
  "is_exit (ProcExit h rc) = True"
| "is_exit (Resume i po) = False"

fun popen_fails :: "sched \<Rightarrow> bool" where
  "popen_fails (Resume i (Some e)) = True"
| "popen_fails _ = False"

fun resumes :: "nat \<Rightarrow> sched \<Rightarrow> bool" where
  "resumes n (Resume i po) = (i < n)"
| "resumes n (ProcExit h rc) = False"

section \<open>whisper\_api\_server.py: the upload endpoint\<close>

record upload =
  filename :: string
  content :: "8 word list"

text \<open>\<open>request.files\<close> and \<open>request.form\<close>: for each name the first value counts.\<close>

record post =
  files :: "(string \<times> upload) list"
  form :: "(string \<times> string) list"

record whisper_result =
  result_text :: string
  result_language :: string
  result_segments :: json

text \<open>
  What the endpoint takes from outside the file: the configured model name, Python's
  \<open>float\<close> on a string (a \<open>ValueError\<close> where the string is no number), the saving of
  the upload under a temporary name, the model's \<open>transcribe\<close> (called with the name,
  the language and the temperature; \<open>no_speech_threshold\<close> and \<open>fp16\<close> are constants)
  and the removal of the temporary file. The module's log lines are not part of the
  response and are left out.
\<close>

record whisper_env =
  MODEL_SIZE :: string
  py_float :: "string \<Rightarrow> exn + real"
  temp_name :: string
  save_exc :: "exn option"
  transcribe :: "string \<Rightarrow> string \<Rightarrow> real \<Rightarrow> exn + whisper_result"
  unlink_exc :: "exn option"

definition ALLOWED_EXTENSIONS :: "string list" where
  "ALLOWED_EXTENSIONS = [''wav'', ''mp3'', ''m4a'', ''flac'', ''aac'', ''ogg'', ''wma'', ''mp4'']"

text \<open>\<open>filename.rsplit('.', 1)[1]\<close>, where the name has a dot: what follows the last one.\<close>

definition after_last_dot :: "string \<Rightarrow> string" where
  "after_last_dot fn = rev (takeWhile (\<lambda>c. c \<noteq> CHR ''.'') (rev fn))"

definition allowed_file :: "string \<Rightarrow> bool" where
  "allowed_file fn = (CHR ''.'' \<in> set fn \<and> lower (after_last_dot fn) \<in> set ALLOWED_EXTENSIONS)"

text \<open>\<open>str.strip()\<close> on code points below 256.\<close>

definition isspace :: "char \<Rightarrow> bool" where
  "isspace c =
     (let n = (of_char c :: nat)
      in (9 \<le> n \<and> n \<le> 13) \<or> (28 \<le> n \<and> n \<le> 32) \<or> n = 133 \<or> n = 160)"

definition strip :: "string \<Rightarrow> string" where
  "strip t = rev (dropWhile isspace (rev (dropWhile isspace t)))"

definition error_body :: "string \<Rightarrow> (string \<times> json) list" where
  "error_body m = [(''error'', JStr m)]"

text \<open>The outer \<open>except Exception\<close> of \<open>transcribe_audio\<close> (lines 89 to 91).\<close>

definition transcription_failed :: "exn \<Rightarrow> response" where
  "transcription_failed e = jsonify (error_body (''Transcription failed: '' @ str_exn e)) 500"

text \<open>The inner \<open>try\<close> with its \<open>finally\<close> (lines 63 to 87); \<open>Inl\<close> is an exception leaving it.\<close>

definition run_model :: "whisper_env \<Rightarrow> string \<Rightarrow> real \<Rightarrow> exn + response" where
  "run_model we language temperature =
     (case transcribe we (temp_name we) language temperature of
        Inl e \<Rightarrow> (case unlink_exc we of Some e' \<Rightarrow> Inl e' | None \<Rightarrow> Inl e)
      | Inr result \<Rightarrow>
          (let resp = jsonify
                 [(''text'', JStr (strip (result_text result))),
                  (''language'', JStr (result_language result)),
                  (''segments'', result_segments result),
                  (''model'', JStr (MODEL_SIZE we))] 200
           in case unlink_exc we of Some e' \<Rightarrow> Inl e' | None \<Rightarrow> Inr resp))"

definition transcribe_audio :: "whisper_env \<Rightarrow> post \<Rightarrow> response" where
  "transcribe_audio we req =
     (case map_of (files req) ''audio'' of
        None \<Rightarrow> jsonify (error_body ''No audio file provided'') 400
      | Some file \<Rightarrow>
          if filename file = [] then jsonify (error_body ''No file selected'') 400
          else if \<not> allowed_file (filename file) then jsonify (error_body ''Unsupported file format'') 400
          else
            (let language = (case map_of (form req) ''language'' of None \<Rightarrow> ''en'' | Some l \<Rightarrow> l)
             in case (case map_of (form req) ''temperature'' of None \<Rightarrow> Inr 0 | Some t \<Rightarrow> py_float we t) of
                  Inl e \<Rightarrow> transcription_failed e
                | Inr temperature \<Rightarrow>
                    (case save_exc we of
                       Some e \<Rightarrow> transcription_failed e
                     | None \<Rightarrow>
                         (case run_model we language temperature of
                            Inl e \<Rightarrow> transcription_failed e
                          | Inr resp \<Rightarrow> resp))))"

section \<open>Vocabulary of the properties\<close>

text \<open>
  A relay message of the specification is a payload tagged text or binary, which is what
  \<open>frame\<close> is. \<open>client_message\<close> is the aiohttp message that carries it on the external
  connection, \<open>server_message\<close> the Python value the websockets library yields for it on
  the internal one.
\<close>

fun client_message :: "frame \<Rightarrow> WSMessage" where
  "client_message (TextFrame t) = \<lparr>mtype = TEXT, mdata = PyStr t\<rparr>"
| "client_message (BinaryFrame b) = \<lparr>mtype = BINARY, mdata = PyBytes b\<rparr>"

fun server_message :: "frame \<Rightarrow> pydata" where
  "server_message (TextFrame t) = PyStr t"
| "server_message (BinaryFrame b) = PyBytes b"

text \<open>Which connection an event belongs to.\<close>

fun from_client :: "event \<Rightarrow> bool" where
  "from_client (ClientMsg msg r) = True"
| "from_client ClientStop = True"
| "from_client (ClientRaise e) = True"
| "from_client (ServerMsg msg r) = False"
| "from_client ServerStop = False"
| "from_client (ServerRaise e) = False"

definition from_server :: "event \<Rightarrow> bool" where
  "from_server e = (\<not> from_client e)"

text \<open>The frame a forwarded value goes out as, by its Python type.\<close>

fun frame_of :: "pydata \<Rightarrow> frame option" where
  "frame_of (PyStr t) = Some (TextFrame t)"
| "frame_of (PyBytes b) = Some (BinaryFrame b)"
| "frame_of PyOther = None"

fun client_frame :: "event \<Rightarrow> frame option" where
  "client_frame (ClientMsg msg r) =
     (if mtype msg = TEXT \<or> mtype msg = BINARY then frame_of (mdata msg) else None)"
| "client_frame _ = None"

fun server_frame :: "event \<Rightarrow> frame option" where
  "server_frame (ServerMsg msg r) = frame_of msg"
| "server_frame _ = None"

text \<open>A message from the client whose type is none of text, binary and error.\<close>

fun discarded :: "event \<Rightarrow> bool" where
  "discarded (ClientMsg msg r) = (mtype msg \<noteq> TEXT \<and> mtype msg \<noteq> BINARY \<and> mtype msg \<noteq> ERROR)"
| "discarded _ = False"

subsection \<open>Concrete inputs\<close>

definition calm :: env where
  "calm = \<lparr>now = 0, sys_executable = ''python3'', prepare_exc = None, popen_exc = None,
     import_exc = None, connect_exc = None, events = [], close_exc = None\<rparr>"

definition plain_get :: request where
  "plain_get = \<lparr>meth = ''GET'', path = ''/'', headers = [(''Host'', ''example.org'')]\<rparr>"

definition upgrade_get :: request where
  "upgrade_get = \<lparr>meth = ''GET'', path = ''/'',
     headers = [(''Connection'', ''Upgrade''), (''Upgrade'', ''WebSocket'')]\<rparr>"

definition relaying :: state where
  "relaying = (init 9090)\<lparr>ws_prepared := True, server_ws := Connected, c2s := Running, s2c := Running\<rparr>"

definition ping :: WSMessage where
  "ping = \<lparr>mtype = PING, mdata = PyBytes []\<rparr>"

definition internal_drop :: env where
  "internal_drop = calm\<lparr>events := [ClientMsg (client_message (BinaryFrame [1, 2, 3])) None, ServerStop]\<rparr>"

definition refused :: env where
  "refused = calm\<lparr>connect_exc := Some (Exception ''Connection refused'')\<rparr>"

definition no_interpreter :: env where
  "no_interpreter = calm\<lparr>popen_exc := Some (Exception ''No such file or directory'')\<rparr>"

definition dialogue :: "event list" where
  "dialogue = [ClientMsg (client_message (TextFrame ''config'')) None,
               ServerMsg (server_message (TextFrame ''READY'')) None,
               ClientMsg (client_message (BinaryFrame [1, 2, 3])) None]"

definition whole_session :: env where
  "whole_session = calm\<lparr>events := dialogue @ [ClientStop, ServerStop]\<rparr>"

text \<open>The supervisor's invariant: only the process spawned last can be alive, and it is the tracked one.\<close>

definition tracked_last :: "state \<Rightarrow> bool" where
  "tracked_last s =
     ((whisper_server s = None \<and> procs s = [])
      \<or> (\<exists>qs q. procs s = qs @ [q] \<and> whisper_server s = Some (length qs) \<and> (\<forall>x \<in> set qs. \<not> alive x)))"

definition dead_procs :: "state \<Rightarrow> proc list" where
  "dead_procs s = filter (\<lambda>q. \<not> alive q) (procs s)"

text \<open>Before the first spawn every task still stands in front of \<open>ensure_whisper_server\<close>.\<close>

fun unstarted :: "state \<times> pc list \<Rightarrow> bool" where
  "unstarted (s, ts) = (procs s = [] \<longrightarrow> whisper_server s = None \<and> (\<forall>t \<in> set ts. t = AtEnsure))"

definition three_at_once :: "sched list" where
  "three_at_once = [Resume 0 None, Resume 1 None, Resume 2 None, Resume 1 None, Resume 0 None, Resume 2 None]"

text \<open>
  A \<open>float\<close> for the examples: it agrees with Python's on the string \<open>0.5\<close> and
  rejects every other string, among them \<open>abc\<close>, with Python's message.
\<close>

definition sample_float :: "string \<Rightarrow> exn + real" where
  "sample_float t =
     (if t = ''0.5'' then Inr (1 / 2)
      else Inl (Exception (''could not convert string to float: '' @ [CHR 0x27] @ t @ [CHR 0x27])))"

definition sample_whisper :: whisper_env where
  "sample_whisper = \<lparr>MODEL_SIZE = ''medium'', py_float = sample_float,
     temp_name = ''/tmp/tmpq3x.audio'', save_exc = None,
     transcribe = (\<lambda>f l t. Inr \<lparr>result_text = '' hello '', result_language = l,
                                   result_segments = JList []\<rparr>),
     unlink_exc = None\<rparr>"

definition post_bad_temperature :: post where
  "post_bad_temperature = \<lparr>files = [(''audio'', \<lparr>filename = ''clip.WAV'', content = [82, 73, 70, 70]\<rparr>)],
     form = [(''temperature'', ''abc'')]\<rparr>"

definition post_no_audio :: post where
  "post_no_audio = \<lparr>files = [], form = [(''temperature'', ''abc'')]\<rparr>"

text \<open>
  The exception a loop catches on an event, if any: one raised by the iteration, or by
  the send of a message that the loop forwards.
\<close>

fun c2s_fault :: "event \<Rightarrow> exn option" where
  "c2s_fault (ClientRaise e) = Some e"
| "c2s_fault (ClientMsg msg r) =
     (if mtype msg = TEXT \<or> mtype msg = BINARY
      then (case ws_send (mdata msg) r of Inl e \<Rightarrow> Some e | Inr f \<Rightarrow> None)
      else None)"
| "c2s_fault _ = None"

fun s2c_fault :: "event \<Rightarrow> exn option" where
  "s2c_fault (ServerRaise e) = Some e"
| "s2c_fault (ServerMsg (PyStr t) r) = r"
| "s2c_fault (ServerMsg (PyBytes b) r) = r"
| "s2c_fault _ = None"

text \<open>
  The relay of one call of the handler, once every event of the environment has been
  dealt with: it starts from the state \<open>ensure_whisper_server\<close> leaves, connected and
  with both loops running.
\<close>

definition session_relay :: "env \<Rightarrow> state \<Rightarrow> state" where
  "session_relay ev s =
     relay (events ev)
       ((snd (ensure_whisper_server ev
                (log_info ''New WebSocket connection established'' (s\<lparr>ws_prepared := True\<rparr>))))
          \<lparr>server_ws := Connected, c2s := Running, s2c := Running\<rparr>)"

definition relay_fault :: env where
  "relay_fault = calm\<lparr>events := [ClientRaise (Exception ''boom''), ServerStop]\<rparr>"

section \<open>Properties\<close>

subsection \<open>Small facts used below\<close>

lemma relay_Nil [simp]: "relay [] s = s"
  by (simp add: relay_def)

lemma relay_Cons [simp]: "relay (e # evs) s = relay evs (relay_step e s)"
  by (simp add: relay_def)

lemma c2s_msg_discard:
  "mtype msg \<noteq> TEXT \<Longrightarrow> mtype msg \<noteq> BINARY \<Longrightarrow> mtype msg \<noteq> ERROR \<Longrightarrow> client_to_server_msg msg r s = s"
  by (simp add: client_to_server_msg_def)

lemma relay_step_discarded: "discarded e \<Longrightarrow> relay_step e s = s"
  by (cases e) (simp_all add: c2s_msg_discard)

lemma relay_filter_discarded: "relay (filter (\<lambda>e. \<not> discarded e) evs) s = relay evs s"
  by (induction evs arbitrary: s) (simp_all add: relay_step_discarded)

lemma plain_get_header: "lower (headers_get (headers plain_get) ''upgrade'' []) \<noteq> ''websocket''"
  by code_simp

subsection \<open>The supervisor\<close>

text \<open>
  Claim C4. \<open>ensure_whisper_server\<close> spawns exactly when no process is tracked or the
  tracked one has exited (its \<open>poll()\<close> gives a return code). Then, \<open>Popen\<close> not raising,
  it starts \<open>run_server.py --port 9091 --backend faster_whisper\<close>, tracks the new
  process, sleeps three seconds and returns. When the tracked process is alive it returns
  at once and nothing changes: no process, no sleep, no log line.
\<close>

theorem ensure_whisper_server_spawn_iff:
  assumes "popen_exc ev = None"
  shows "(procs (snd (ensure_whisper_server ev s)) \<noteq> procs s
            \<longleftrightarrow> whisper_server s = None \<or> (\<exists>h rc. whisper_server s = Some h \<and> poll s h = Some rc))
       \<and> (whisper_server s = None \<or> (\<exists>h rc. whisper_server s = Some h \<and> poll s h = Some rc)
          \<longrightarrow> fst (ensure_whisper_server ev s) = Inr ()
              \<and> procs (snd (ensure_whisper_server ev s)) = procs s @ [new_proc (sys_executable ev)]
              \<and> argv (new_proc (sys_executable ev)) =
                  [sys_executable ev, ''run_server.py'', ''--port'', ''9091'', ''--backend'', ''faster_whisper'']
              \<and> whisper_server (snd (ensure_whisper_server ev s)) = Some (length (procs s))
              \<and> poll (snd (ensure_whisper_server ev s)) (length (procs s)) = None
              \<and> slept (snd (ensure_whisper_server ev s)) = slept s + 3)
       \<and> (\<not> (whisper_server s = None \<or> (\<exists>h rc. whisper_server s = Some h \<and> poll s h = Some rc))
          \<longrightarrow> ensure_whisper_server ev s = (Inr (), s))"
  using assms
  by (auto simp: ensure_whisper_server_def ensure_begin_def needs_spawn_def ensure_resume_def
      log_info_def new_proc_def backend_argv_def poll_def split: option.splits)

theorem ensure_whisper_server_spawn_iff_witness:
  "popen_exc calm = None
   \<and> whisper_server (init 9090) = None
   \<and> fst (ensure_whisper_server calm (init 9090)) = Inr ()
   \<and> procs (snd (ensure_whisper_server calm (init 9090))) = [new_proc ''python3'']
   \<and> slept (snd (ensure_whisper_server calm (init 9090))) = 3
   \<and> ensure_whisper_server calm (snd (ensure_whisper_server calm (init 9090)))
       = (Inr (), snd (ensure_whisper_server calm (init 9090)))"
proof -
  have p: "popen_exc calm = None" by (simp add: calm_def)
  have n: "whisper_server (init 9090) = None" by (simp add: init_def)
  have first: "fst (ensure_whisper_server calm (init 9090)) = Inr ()
      \<and> procs (snd (ensure_whisper_server calm (init 9090))) = [new_proc ''python3'']
      \<and> whisper_server (snd (ensure_whisper_server calm (init 9090))) = Some 0
      \<and> poll (snd (ensure_whisper_server calm (init 9090))) 0 = None
      \<and> slept (snd (ensure_whisper_server calm (init 9090))) = 3"
    using ensure_whisper_server_spawn_iff [OF p, of "init 9090"] n
    by (simp add: init_def calm_def)
  then have "\<not> (whisper_server (snd (ensure_whisper_server calm (init 9090))) = None
      \<or> (\<exists>h rc. whisper_server (snd (ensure_whisper_server calm (init 9090))) = Some h
           \<and> poll (snd (ensure_whisper_server calm (init 9090))) h = Some rc))"
    by simp
  then have "ensure_whisper_server calm (snd (ensure_whisper_server calm (init 9090)))
       = (Inr (), snd (ensure_whisper_server calm (init 9090)))"
    using ensure_whisper_server_spawn_iff [OF p, of "snd (ensure_whisper_server calm (init 9090))"]
    by blast
  with p n first show ?thesis by simp
qed

subsection \<open>The health endpoint\<close>

lemma health_check_handler:
  "status (fst (health_check ev req s)) = 200
   \<and> json_keys (body (fst (health_check ev req s))) = [''status'', ''service'', ''backend'', ''timestamp'']
   \<and> snd (health_check ev req s) = s\<lparr>logs := logs s @ [(INFO, ''Health check: '' @ meth req @ '' '' @ path req)]\<rparr>
   \<and> whisper_server (snd (health_check ev req s)) = whisper_server s
   \<and> procs (snd (health_check ev req s)) = procs s"
  by (simp add: health_check_def json_response_def log_info_def)

lemma add_get_health:
  "add_get ''/health'' HealthCheck [] = Inr [(''/health'', [(''HEAD'', HealthCheck), (''GET'', HealthCheck)])]"
  by (simp add: add_get_def add_route_def add_resource_def resource_add_route_def)

text \<open>
  Claim C5 says that every \<open>GET\<close> and \<open>HEAD\<close> request to the health path is answered
  200 with the four fields. The code does not get that far. \<open>add_get\<close> of line 33
  registers \<open>HEAD\<close> together with \<open>GET\<close>, and after it both methods reach
  \<open>health_check\<close>; \<open>add_head\<close> of line 34 then asks for \<open>HEAD\<close> on the same resource
  a second time and raises \<open>RuntimeError\<close>. So \<open>setup_routes\<close> raises, line 35 never
  registers the root path, and the constructor fails for every port: no wrapper exists
  that could answer a request.
\<close>

theorem setup_routes_raises:
  "add_get ''/health'' HealthCheck [] = Inr [(''/health'', [(''HEAD'', HealthCheck), (''GET'', HealthCheck)])]
   \<and> resolve [(''/health'', [(''HEAD'', HealthCheck), (''GET'', HealthCheck)])] ''GET'' ''/health'' = Some HealthCheck
   \<and> resolve [(''/health'', [(''HEAD'', HealthCheck), (''GET'', HealthCheck)])] ''HEAD'' ''/health'' = Some HealthCheck
   \<and> add_head ''/health'' HealthCheck [(''/health'', [(''HEAD'', HealthCheck), (''GET'', HealthCheck)])]
       = Inl (Exception ''Added route will never be executed, method HEAD is already registered'')
   \<and> setup_routes = Inl (Exception ''Added route will never be executed, method HEAD is already registered'')
   \<and> construct p = Inl (Exception ''Added route will never be executed, method HEAD is already registered'')"
proof -
  have h: "add_head ''/health'' HealthCheck [(''/health'', [(''HEAD'', HealthCheck), (''GET'', HealthCheck)])]
       = Inl (Exception ''Added route will never be executed, method HEAD is already registered'')"
    by (simp add: add_head_def add_route_def add_resource_def resource_add_route_def)
  have s: "setup_routes = Inl (Exception ''Added route will never be executed, method HEAD is already registered'')"
    by (simp add: setup_routes_def add_get_health h)
  have r: "resolve [(''/health'', [(''HEAD'', HealthCheck), (''GET'', HealthCheck)])] ''GET'' ''/health'' = Some HealthCheck"
    "resolve [(''/health'', [(''HEAD'', HealthCheck), (''GET'', HealthCheck)])] ''HEAD'' ''/health'' = Some HealthCheck"
    by (simp_all add: resolve_def)
  have c: "construct p = Inl (Exception ''Added route will never be executed, method HEAD is already registered'')"
    unfolding construct_def s by simp
  from add_get_health h s r c show ?thesis by blast
qed

subsection \<open>The root path without an upgrade\<close>

text \<open>
  Claim C8. Given a request whose \<open>Upgrade\<close> header, lower-cased, is not \<open>websocket\<close>
  (or is absent), \<open>websocket_handler\<close> answers 200 with the service-info object of the
  four keys \<open>service\<close>, \<open>status\<close>, \<open>backend\<close>, \<open>websocket_url\<close> and returns the state
  it was given: no process is spawned, no connection opened, nothing relayed, whatever
  the environment would have done.
\<close>

theorem plain_get_no_spawn:
  assumes "lower (headers_get (headers req) ''upgrade'' []) \<noteq> ''websocket''"
  shows "websocket_handler ev req s = (Some (Responded (service_info s)), s)
     \<and> status (service_info s) = 200
     \<and> json_keys (body (service_info s)) = [''service'', ''status'', ''backend'', ''websocket_url'']
     \<and> whisper_server (snd (websocket_handler ev req s)) = whisper_server s
     \<and> procs (snd (websocket_handler ev req s)) = procs s
     \<and> server_ws (snd (websocket_handler ev req s)) = server_ws s
     \<and> to_server (snd (websocket_handler ev req s)) = to_server s
     \<and> to_client (snd (websocket_handler ev req s)) = to_client s"
  using assms
  by (simp add: websocket_handler_def service_info_def json_response_def)

theorem plain_get_no_spawn_witness:
  "lower (headers_get (headers plain_get) ''upgrade'' []) \<noteq> ''websocket''
   \<and> websocket_handler calm plain_get (init 9090) = (Some (Responded (service_info (init 9090))), init 9090)"
  using plain_get_no_spawn [OF plain_get_header, of calm "init 9090"] plain_get_header by simp

subsection \<open>Messages of other types\<close>

text \<open>
  Claim C9. In the loop from the client to the backend, a message that is neither text,
  binary nor error leaves the state as it was: nothing is sent, nothing logged, the loop
  keeps running, and a run with such messages removed ends in the same state. An error
  message ends the loop without sending. Of the messages whose forwarding does not raise,
  the error message is the only one that ends the loop.
\<close>

theorem other_types_discarded:
  "(mtype msg \<notin> {TEXT, BINARY, ERROR} \<longrightarrow> client_to_server_msg msg r s = s)
   \<and> (mtype msg = ERROR \<longrightarrow>
        c2s (client_to_server_msg msg r s) = Finished
        \<and> to_server (client_to_server_msg msg r s) = to_server s)
   \<and> (c2s s = Running \<and> (\<forall>e. ws_send (mdata msg) r \<noteq> Inl e)
        \<longrightarrow> (c2s (client_to_server_msg msg r s) = Finished \<longleftrightarrow> mtype msg = ERROR))
   \<and> relay (filter (\<lambda>e. \<not> discarded e) evs) s = relay evs s"
  by (auto simp: client_to_server_msg_def log_error_def relay_filter_discarded c2s_except_def
      split: sum.splits)

theorem other_types_discarded_witness:
  "mtype ping \<notin> {TEXT, BINARY, ERROR}
   \<and> client_to_server_msg ping None relaying = relaying
   \<and> c2s relaying = Running
   \<and> relay [ClientMsg (client_message (TextFrame ''a'')) None] relaying
       = relay [ClientMsg ping None, ClientMsg (client_message (TextFrame ''a'')) None] relaying"
proof -
  have t: "mtype ping \<notin> {TEXT, BINARY, ERROR}" by (simp add: ping_def)
  have r: "c2s relaying = Running" by (simp add: relaying_def)
  have d: "filter (\<lambda>e. \<not> discarded e) [ClientMsg ping None, ClientMsg (client_message (TextFrame ''a'')) None]
      = [ClientMsg (client_message (TextFrame ''a'')) None]"
    by (simp add: ping_def)
  show ?thesis
    using other_types_discarded [of ping None relaying
        "[ClientMsg ping None, ClientMsg (client_message (TextFrame ''a'')) None]"] t r
    unfolding d by blast
qed

subsection \<open>The relay\<close>

lemma c2s_msg_relay_message:
  "client_to_server_msg (client_message m) None s = s\<lparr>to_server := to_server s @ [m]\<rparr>"
  by (cases m) (simp_all add: client_to_server_msg_def ws_send_def)

lemma s2c_msg_relay_message:
  "server_to_client_msg (server_message m) None s = s\<lparr>to_client := to_client s @ [m]\<rparr>"
  by (cases m) (simp_all add: server_to_client_msg_def send_str_def send_bytes_def)

lemma server_step_keeps_client_side:
  "from_server e \<Longrightarrow> c2s (relay_step e s) = c2s s \<and> to_server (relay_step e s) = to_server s"
  by (cases e) (auto simp: from_server_def server_to_client_msg_def s2c_except_def log_error_def
      split: pydata.splits sum.splits)

lemma client_step_keeps_server_side:
  "from_client e \<Longrightarrow> s2c (relay_step e s) = s2c s \<and> to_client (relay_step e s) = to_client s"
  by (cases e) (auto simp: client_to_server_msg_def c2s_except_def log_error_def
      split: sum.splits)

lemma relay_c2s_exact:
  "c2s s = Running \<Longrightarrow> filter from_client evs = map (\<lambda>m. ClientMsg (client_message m) None) ms
    \<Longrightarrow> to_server (relay evs s) = to_server s @ ms \<and> c2s (relay evs s) = Running"
proof (induction evs arbitrary: s ms)
  case Nil
  then show ?case by simp
next
  case (Cons e evs)
  show ?case
  proof (cases "from_client e")
    case True
    with Cons.prems(2) obtain m ms' where ms: "ms = m # ms'" and e: "e = ClientMsg (client_message m) None"
      and rest: "filter from_client evs = map (\<lambda>m. ClientMsg (client_message m) None) ms'"
      by (cases ms) auto
    have step: "relay_step e s = s\<lparr>to_server := to_server s @ [m]\<rparr>"
      using Cons.prems(1) e by (simp add: c2s_msg_relay_message)
    have "c2s (relay_step e s) = Running" using step Cons.prems(1) by simp
    from Cons.IH [OF this rest] show ?thesis using step ms by simp
  next
    case False
    then have fs: "from_server e" by (simp add: from_server_def)
    have rest: "filter from_client evs = map (\<lambda>m. ClientMsg (client_message m) None) ms"
      using Cons.prems(2) False by simp
    have run: "c2s (relay_step e s) = Running"
      using server_step_keeps_client_side [OF fs] Cons.prems(1) by simp
    from Cons.IH [OF run rest] show ?thesis
      using server_step_keeps_client_side [OF fs, of s] by simp
  qed
qed

lemma relay_s2c_exact:
  "s2c s = Running \<Longrightarrow> filter from_server evs = map (\<lambda>m. ServerMsg (server_message m) None) ms
    \<Longrightarrow> to_client (relay evs s) = to_client s @ ms \<and> s2c (relay evs s) = Running"
proof (induction evs arbitrary: s ms)
  case Nil
  then show ?case by simp
next
  case (Cons e evs)
  show ?case
  proof (cases "from_server e")
    case True
    with Cons.prems(2) obtain m ms' where ms: "ms = m # ms'" and e: "e = ServerMsg (server_message m) None"
      and rest: "filter from_server evs = map (\<lambda>m. ServerMsg (server_message m) None) ms'"
      by (cases ms) auto
    have step: "relay_step e s = s\<lparr>to_client := to_client s @ [m]\<rparr>"
      using Cons.prems(1) e by (simp add: s2c_msg_relay_message)
    have "s2c (relay_step e s) = Running" using step Cons.prems(1) by simp
    from Cons.IH [OF this rest] show ?thesis using step ms by simp
  next
    case False
    then have fc: "from_client e" by (simp add: from_server_def)
    have rest: "filter from_server evs = map (\<lambda>m. ServerMsg (server_message m) None) ms"
      using Cons.prems(2) False by simp
    have run: "s2c (relay_step e s) = Running"
      using client_step_keeps_server_side [OF fc] Cons.prems(1) by simp
    from Cons.IH [OF run rest] show ?thesis
      using client_step_keeps_server_side [OF fc, of s] by simp
  qed
qed

lemma c2s_stopped_to_server: "c2s s \<noteq> Running \<Longrightarrow> to_server (relay evs s) = to_server s"
proof (induction evs arbitrary: s)
  case Nil
  then show ?case by simp
next
  case (Cons e evs)
  have "c2s (relay_step e s) \<noteq> Running \<and> to_server (relay_step e s) = to_server s"
  proof (cases "from_client e")
    case True
    then show ?thesis using Cons.prems by (cases e) simp_all
  next
    case False
    then show ?thesis using server_step_keeps_client_side [of e s] Cons.prems
      by (simp add: from_server_def)
  qed
  then show ?case using Cons.IH [of "relay_step e s"] by simp
qed

lemma s2c_stopped_to_client: "s2c s \<noteq> Running \<Longrightarrow> to_client (relay evs s) = to_client s"
proof (induction evs arbitrary: s)
  case Nil
  then show ?case by simp
next
  case (Cons e evs)
  have "s2c (relay_step e s) \<noteq> Running \<and> to_client (relay_step e s) = to_client s"
  proof (cases "from_server e")
    case True
    then show ?thesis using Cons.prems by (cases e) (simp_all add: from_server_def)
  next
    case False
    then show ?thesis using client_step_keeps_server_side [of e s] Cons.prems
      by (simp add: from_server_def)
  qed
  then show ?case using Cons.IH [of "relay_step e s"] by simp
qed

lemma c2s_step_shape:
  "to_server (relay_step e s) = to_server s \<and> (client_frame e = None \<or> c2s (relay_step e s) \<noteq> Running)
   \<or> (\<exists>f. client_frame e = Some f \<and> to_server (relay_step e s) = to_server s @ [f])"
  by (cases e) (auto simp: client_to_server_msg_def ws_send_def c2s_except_def log_error_def
      server_to_client_msg_def s2c_except_def
      split: option.splits pydata.splits sum.splits)

lemma relay_c2s_prefix:
  "prefix (to_server (relay evs s)) (to_server s @ List.map_filter client_frame evs)"
proof (induction evs arbitrary: s)
  case Nil
  then show ?case by simp
next
  case (Cons e evs)
  let ?s1 = "relay_step e s"
  from c2s_step_shape [of e s] consider
    (same) "to_server ?s1 = to_server s" "client_frame e = None"
    | (stop) "to_server ?s1 = to_server s" "c2s ?s1 \<noteq> Running"
    | (sent) f where "client_frame e = Some f" "to_server ?s1 = to_server s @ [f]"
    by auto
  then show ?case
  proof cases
    case same
    then show ?thesis using Cons.IH [of ?s1] by (simp add: map_filter_simps)
  next
    case stop
    then show ?thesis using c2s_stopped_to_server [of ?s1 evs] by simp
  next
    case sent
    then show ?thesis using Cons.IH [of ?s1] by (simp add: map_filter_simps)
  qed
qed

lemma s2c_relay_step_prefix_shape:
  "to_client (relay_step e s) = to_client s \<and> (server_frame e = None \<or> s2c (relay_step e s) \<noteq> Running)
   \<or> (\<exists>f. server_frame e = Some f \<and> to_client (relay_step e s) = to_client s @ [f])"
  by (cases e) (auto simp: client_to_server_msg_def ws_send_def c2s_except_def log_error_def
      server_to_client_msg_def s2c_except_def send_str_def send_bytes_def
      split: option.splits pydata.splits sum.splits)

lemma relay_s2c_prefix:
  "prefix (to_client (relay evs s)) (to_client s @ List.map_filter server_frame evs)"
proof (induction evs arbitrary: s)
  case Nil
  then show ?case by simp
next
  case (Cons e evs)
  let ?s1 = "relay_step e s"
  from s2c_relay_step_prefix_shape [of e s] consider
    (same) "to_client ?s1 = to_client s" "server_frame e = None"
    | (stop) "to_client ?s1 = to_client s" "s2c ?s1 \<noteq> Running"
    | (sent) f where "server_frame e = Some f" "to_client ?s1 = to_client s @ [f]"
    by auto
  then show ?case
  proof cases
    case same
    then show ?thesis using Cons.IH [of ?s1] by (simp add: map_filter_simps)
  next
    case stop
    then show ?thesis using s2c_stopped_to_client [of ?s1 evs] by simp
  next
    case sent
    then show ?thesis using Cons.IH [of ?s1] by (simp add: map_filter_simps)
  qed
qed

text \<open>
  Claim C2. Whatever else happens on the other connection, while the client's leg stays
  open and its messages are relay messages \<open>ms\<close> (text or binary) whose forwarding does
  not raise, the backend has been sent exactly \<open>ms\<close>: same order, text as text, binary
  as binary, payloads untouched. The same holds from the backend to the client. Without
  any assumption, what a peer has been sent is an initial part of the text and binary
  payloads received for it, in order of arrival and with the kind of each.
\<close>

theorem relay_preserves_messages:
  "(c2s s = Running \<and> filter from_client evs = map (\<lambda>m. ClientMsg (client_message m) None) ms
      \<longrightarrow> to_server (relay evs s) = to_server s @ ms)
   \<and> (s2c s = Running \<and> filter from_server evs = map (\<lambda>m. ServerMsg (server_message m) None) ms'
      \<longrightarrow> to_client (relay evs s) = to_client s @ ms')
   \<and> prefix (to_server (relay evs s)) (to_server s @ List.map_filter client_frame evs)
   \<and> prefix (to_client (relay evs s)) (to_client s @ List.map_filter server_frame evs)"
  using relay_c2s_exact [of s evs ms] relay_s2c_exact [of s evs ms']
    relay_c2s_prefix [of evs s] relay_s2c_prefix [of evs s]
  by blast

theorem relay_preserves_messages_witness:
  "c2s relaying = Running \<and> s2c relaying = Running
   \<and> filter from_client dialogue
       = map (\<lambda>m. ClientMsg (client_message m) None) [TextFrame ''config'', BinaryFrame [1, 2, 3]]
   \<and> filter from_server dialogue = map (\<lambda>m. ServerMsg (server_message m) None) [TextFrame ''READY'']
   \<and> to_server (relay dialogue relaying) = [TextFrame ''config'', BinaryFrame [1, 2, 3]]
   \<and> to_client (relay dialogue relaying) = [TextFrame ''READY'']"
proof -
  have r: "c2s relaying = Running" "s2c relaying = Running" "to_server relaying = []" "to_client relaying = []"
    by (simp_all add: relaying_def init_def)
  have c: "filter from_client dialogue
       = map (\<lambda>m. ClientMsg (client_message m) None) [TextFrame ''config'', BinaryFrame [1, 2, 3]]"
    by (simp add: dialogue_def)
  have v: "filter from_server dialogue = map (\<lambda>m. ServerMsg (server_message m) None) [TextFrame ''READY'']"
    by (simp add: dialogue_def from_server_def)
  show ?thesis
    using relay_preserves_messages [of relaying dialogue "[TextFrame ''config'', BinaryFrame [1, 2, 3]]"
        "[TextFrame ''READY'']"] r c v
    by simp
qed

lemma relay_frame:
  "server_ws (relay evs s) = server_ws s \<and> ws_closed (relay evs s) = ws_closed s
   \<and> whisper_server (relay evs s) = whisper_server s \<and> procs (relay evs s) = procs s"
proof (induction evs arbitrary: s)
  case Nil
  then show ?case by simp
next
  case (Cons e evs)
  have "server_ws (relay_step e s) = server_ws s \<and> ws_closed (relay_step e s) = ws_closed s
     \<and> whisper_server (relay_step e s) = whisper_server s \<and> procs (relay_step e s) = procs s"
    by (cases e) (auto simp: client_to_server_msg_def c2s_except_def log_error_def
        server_to_client_msg_def s2c_except_def split: sum.splits pydata.splits)
  then show ?case using Cons.IH [of "relay_step e s"] by simp
qed

text \<open>
  Claim C7. An event on one connection, the end of its loop included, changes neither
  the state of the other loop nor what that loop has sent; the loop that still runs
  forwards the next message of its own connection. \<open>proxy_websocket\<close>, once connected,
  returns exactly when both loops have finished.
\<close>

theorem gather_waits_for_both:
  "(from_client e \<longrightarrow> s2c (relay_step e s) = s2c s \<and> to_client (relay_step e s) = to_client s)
   \<and> (from_server e \<longrightarrow> c2s (relay_step e s) = c2s s \<and> to_server (relay_step e s) = to_server s)
   \<and> (s2c s = Running \<and> from_client e \<longrightarrow>
        to_client (relay_step (ServerMsg (server_message m) None) (relay_step e s)) = to_client s @ [m])
   \<and> (c2s s = Running \<and> from_server e \<longrightarrow>
        to_server (relay_step (ClientMsg (client_message m) None) (relay_step e s)) = to_server s @ [m])
   \<and> (import_exc ev = None \<and> connect_exc ev = None \<longrightarrow>
        (fst (proxy_websocket ev s) \<noteq> None
           \<longleftrightarrow> c2s (snd (proxy_websocket ev s)) = Finished \<and> s2c (snd (proxy_websocket ev s)) = Finished))"
proof -
  have a: "from_client e \<longrightarrow> s2c (relay_step e s) = s2c s \<and> to_client (relay_step e s) = to_client s"
    using client_step_keeps_server_side [of e s] by blast
  have b: "from_server e \<longrightarrow> c2s (relay_step e s) = c2s s \<and> to_server (relay_step e s) = to_server s"
    using server_step_keeps_client_side [of e s] by blast
  have c: "s2c s = Running \<and> from_client e \<longrightarrow>
        to_client (relay_step (ServerMsg (server_message m) None) (relay_step e s)) = to_client s @ [m]"
    using a by (simp add: s2c_msg_relay_message)
  have d: "c2s s = Running \<and> from_server e \<longrightarrow>
        to_server (relay_step (ClientMsg (client_message m) None) (relay_step e s)) = to_server s @ [m]"
    using b by (simp add: c2s_msg_relay_message)
  have e: "import_exc ev = None \<and> connect_exc ev = None \<longrightarrow>
        (fst (proxy_websocket ev s) \<noteq> None
           \<longleftrightarrow> c2s (snd (proxy_websocket ev s)) = Finished \<and> s2c (snd (proxy_websocket ev s)) = Finished)"
    by (simp add: proxy_websocket_def gather_done_def Let_def)
  from a b c d e show ?thesis by blast
qed

theorem gather_waits_for_both_witness:
  "from_client ClientStop \<and> s2c relaying = Running
   \<and> c2s (relay_step ClientStop relaying) = Finished
   \<and> s2c (relay_step ClientStop relaying) = Running
   \<and> to_client (relay_step (ServerMsg (server_message (TextFrame ''late'')) None)
        (relay_step ClientStop relaying)) = [TextFrame ''late'']
   \<and> import_exc (calm\<lparr>events := [ClientStop]\<rparr>) = None \<and> connect_exc (calm\<lparr>events := [ClientStop]\<rparr>) = None
   \<and> fst (proxy_websocket (calm\<lparr>events := [ClientStop]\<rparr>) (init 9090)) = None"
proof -
  have r: "s2c relaying = Running" "c2s relaying = Running" "to_client relaying = []"
    by (simp_all add: relaying_def init_def)
  have f: "c2s (relay_step ClientStop relaying) = Finished" using r by simp
  have i: "import_exc (calm\<lparr>events := [ClientStop]\<rparr>) = None" "connect_exc (calm\<lparr>events := [ClientStop]\<rparr>) = None"
    by (simp_all add: calm_def)
  have n: "s2c (snd (proxy_websocket (calm\<lparr>events := [ClientStop]\<rparr>) (init 9090))) \<noteq> Finished"
    by (simp add: proxy_websocket_def calm_def init_def gather_done_def)
  show ?thesis
    using gather_waits_for_both [of ClientStop relaying "TextFrame ''late''" "calm\<lparr>events := [ClientStop]\<rparr>"]
      gather_waits_for_both [of ClientStop "init 9090" "TextFrame ''late''" "calm\<lparr>events := [ClientStop]\<rparr>"]
      r f i n
    by simp
qed

subsection \<open>The connection handler\<close>

lemma upgrade_get_header: "lower (headers_get (headers upgrade_get) ''upgrade'' []) = ''websocket''"
  by code_simp

lemma ensure_keeps_connection:
  "server_ws (snd (ensure_whisper_server ev s)) = server_ws s
   \<and> ws_closed (snd (ensure_whisper_server ev s)) = ws_closed s
   \<and> c2s (snd (ensure_whisper_server ev s)) = c2s s
   \<and> s2c (snd (ensure_whisper_server ev s)) = s2c s"
  by (auto simp: ensure_whisper_server_def ensure_begin_def ensure_resume_def log_info_def Let_def
      split: option.splits)

lemma websocket_handler_upgrade:
  assumes "lower (headers_get (headers req) ''upgrade'' []) = ''websocket''" and "prepare_exc ev = None"
  shows "websocket_handler ev req s =
     (let r = ensure_whisper_server ev
                (log_info ''New WebSocket connection established'' (s\<lparr>ws_prepared := True\<rparr>))
      in case fst r of
           Inl e \<Rightarrow> handler_except ev e (snd r)
         | Inr u \<Rightarrow>
             (let p = proxy_websocket ev (snd r)
              in case fst p of
                   None \<Rightarrow> (None, snd p)
                 | Some (Inl e) \<Rightarrow> handler_except ev e (snd p)
                 | Some (Inr v) \<Rightarrow> (Some ReturnedWs, log_info ''WebSocket connection closed'' (snd p))))"
  using assms by (simp add: websocket_handler_def Let_def case_prod_beta split: sum.splits)

lemma proxy_websocket_cases:
  assumes "server_ws s = NotConnected"
  shows "(fst (proxy_websocket ev s) \<noteq> None \<longrightarrow> server_ws (snd (proxy_websocket ev s)) \<noteq> Connected)
     \<and> (server_ws (snd (proxy_websocket ev s)) = ConnClosed
          \<longrightarrow> c2s (snd (proxy_websocket ev s)) = Finished \<and> s2c (snd (proxy_websocket ev s)) = Finished)
     \<and> (fst (proxy_websocket ev s) = None
          \<longrightarrow> server_ws (snd (proxy_websocket ev s)) = Connected
            \<and> \<not> gather_done (snd (proxy_websocket ev s)))
     \<and> ws_closed (snd (proxy_websocket ev s)) = ws_closed s"
  using assms relay_frame [of "events ev" "s\<lparr>server_ws := Connected, c2s := Running, s2c := Running\<rparr>"]
  by (auto simp: proxy_websocket_def Let_def log_error_def gather_done_def split: option.splits)

lemma handler_except_shape:
  "fst (handler_except ev e s) \<noteq> None
   \<and> server_ws (snd (handler_except ev e s)) = server_ws s
   \<and> c2s (snd (handler_except ev e s)) = c2s s
   \<and> s2c (snd (handler_except ev e s)) = s2c s"
  by (auto simp: handler_except_def Let_def log_error_def log_info_def split: option.splits)

text \<open>
  Claim C3, as stated, fails: the client sends one binary message, then the internal
  connection ends and nothing more arrives. The loop from the backend has finished, the
  loop from the client still waits, the handler never returns and the external
  connection is not closed.
\<close>

theorem internal_drop_leaves_client_open:
  "fst (websocket_handler internal_drop upgrade_get (init 9090)) = None
   \<and> \<not> ws_closed (snd (websocket_handler internal_drop upgrade_get (init 9090)))
   \<and> s2c (snd (websocket_handler internal_drop upgrade_get (init 9090))) = Finished
   \<and> c2s (snd (websocket_handler internal_drop upgrade_get (init 9090))) = Running"
  using upgrade_get_header
  by (simp add: websocket_handler_def internal_drop_def calm_def init_def ensure_whisper_server_def
      ensure_begin_def needs_spawn_def ensure_resume_def log_info_def proxy_websocket_def
      gather_done_def client_to_server_msg_def ws_send_def Let_def)

text \<open>
  Claim C3, amended. For a handler called with no internal connection open: whenever it
  returns, the internal connection is not left open; the internal connection is closed
  only once both loops have finished; while a loop still waits, the handler does not
  return, the internal connection stays open and the external one is as it was; and the
  handler itself closes the external connection only on its exception path (\<open>Popen\<close> or
  the import raised).
\<close>

theorem teardown_after_both_loops:
  assumes "server_ws s = NotConnected"
  shows "(fst (websocket_handler ev req s) \<noteq> None
            \<longrightarrow> server_ws (snd (websocket_handler ev req s)) \<noteq> Connected)
     \<and> (server_ws (snd (websocket_handler ev req s)) = ConnClosed
            \<longrightarrow> c2s (snd (websocket_handler ev req s)) = Finished
              \<and> s2c (snd (websocket_handler ev req s)) = Finished)
     \<and> (fst (websocket_handler ev req s) = None
            \<longrightarrow> server_ws (snd (websocket_handler ev req s)) = Connected
              \<and> \<not> gather_done (snd (websocket_handler ev req s))
              \<and> ws_closed (snd (websocket_handler ev req s)) = ws_closed s)
     \<and> (ws_closed (snd (websocket_handler ev req s)) \<and> \<not> ws_closed s
            \<longrightarrow> popen_exc ev \<noteq> None \<or> import_exc ev \<noteq> None)"
proof (cases "lower (headers_get (headers req) ''upgrade'' []) \<noteq> ''websocket''")
  case True
  then show ?thesis using assms by (simp add: websocket_handler_def)
next
  case up: False
  show ?thesis
  proof (cases "prepare_exc ev")
    case (Some e)
    then show ?thesis using assms up by (simp add: websocket_handler_def)
  next
    case None
    define s1 where "s1 = log_info ''New WebSocket connection established'' (s\<lparr>ws_prepared := True\<rparr>)"
    define s2 where "s2 = snd (ensure_whisper_server ev s1)"
    have s1: "server_ws s1 = NotConnected" "ws_closed s1 = ws_closed s"
      using assms by (simp_all add: s1_def log_info_def)
    have s2: "server_ws s2 = NotConnected" "ws_closed s2 = ws_closed s"
      using s1 ensure_keeps_connection [of ev s1] by (simp_all add: s2_def)
    show ?thesis
    proof (cases "fst (ensure_whisper_server ev s1)")
      case (Inl e)
      then have h: "websocket_handler ev req s = handler_except ev e s2"
        using websocket_handler_upgrade [of req ev s] up None by (simp add: s1_def s2_def Let_def)
      have pe: "popen_exc ev \<noteq> None"
        using Inl by (auto simp: ensure_whisper_server_def ensure_begin_def Let_def split: if_splits option.splits)
      show ?thesis using h s2 pe handler_except_shape [of ev e s2] by auto
    next
      case (Inr u)
      note pc = proxy_websocket_cases [OF s2(1), of ev]
      show ?thesis
      proof (cases "fst (proxy_websocket ev s2)")
        case None' : None
        then have h: "websocket_handler ev req s = (None, snd (proxy_websocket ev s2))"
          using websocket_handler_upgrade [of req ev s] up None Inr by (simp add: s1_def s2_def Let_def)
        show ?thesis using h pc s2 None' by simp
      next
        case (Some r)
        show ?thesis
        proof (cases r)
          case (Inl e)
          then have h: "websocket_handler ev req s = handler_except ev e (snd (proxy_websocket ev s2))"
            using websocket_handler_upgrade [of req ev s] up None \<open>fst (ensure_whisper_server ev s1) = Inr u\<close> Some
            by (simp add: s1_def s2_def Let_def)
          have ie: "import_exc ev \<noteq> None"
            using Some Inl by (auto simp: proxy_websocket_def Let_def split: option.splits if_splits)
          show ?thesis using h pc Some ie handler_except_shape [of ev e "snd (proxy_websocket ev s2)"] by auto
        next
          case (Inr v)
          then have h: "websocket_handler ev req s
              = (Some ReturnedWs, log_info ''WebSocket connection closed'' (snd (proxy_websocket ev s2)))"
            using websocket_handler_upgrade [of req ev s] up None \<open>fst (ensure_whisper_server ev s1) = Inr u\<close> Some
            by (simp add: s1_def s2_def Let_def)
          show ?thesis using h pc Some s2 by (simp add: log_info_def)
        qed
      qed
    qed
  qed
qed

lemma handler_eval_simps:
  "log_info m s = s\<lparr>logs := logs s @ [(INFO, m)]\<rparr>"
  "log_error m s = s\<lparr>logs := logs s @ [(ERROR_LEVEL, m)]\<rparr>"
  by (simp_all add: log_info_def log_error_def)

theorem teardown_after_both_loops_witness:
  "server_ws (init 9090) = NotConnected
   \<and> fst (websocket_handler whole_session upgrade_get (init 9090)) = Some ReturnedWs
   \<and> server_ws (snd (websocket_handler whole_session upgrade_get (init 9090))) = ConnClosed
   \<and> c2s (snd (websocket_handler whole_session upgrade_get (init 9090))) = Finished
   \<and> s2c (snd (websocket_handler whole_session upgrade_get (init 9090))) = Finished
   \<and> \<not> ws_closed (snd (websocket_handler whole_session upgrade_get (init 9090)))"
proof -
  have i: "server_ws (init 9090) = NotConnected" "\<not> ws_closed (init 9090)"
    by (simp_all add: init_def)
  have r: "fst (websocket_handler whole_session upgrade_get (init 9090)) = Some ReturnedWs"
    using upgrade_get_header
    by (simp add: websocket_handler_def whole_session_def dialogue_def calm_def init_def
        ensure_whisper_server_def ensure_begin_def needs_spawn_def ensure_resume_def
        handler_eval_simps proxy_websocket_def gather_done_def client_to_server_msg_def
        server_to_client_msg_def ws_send_def send_str_def send_bytes_def Let_def)
  have c: "server_ws (snd (websocket_handler whole_session upgrade_get (init 9090))) = ConnClosed"
    using upgrade_get_header
    by (simp add: websocket_handler_def whole_session_def dialogue_def calm_def init_def
        ensure_whisper_server_def ensure_begin_def needs_spawn_def ensure_resume_def
        handler_eval_simps proxy_websocket_def gather_done_def client_to_server_msg_def
        server_to_client_msg_def ws_send_def send_str_def send_bytes_def Let_def)
  have p: "popen_exc whole_session = None" "import_exc whole_session = None"
    by (simp_all add: whole_session_def calm_def)
  show ?thesis
    using teardown_after_both_loops [OF i(1), of whole_session upgrade_get] i r c p by auto
qed

lemma needs_spawn_established:
  "needs_spawn (log_info m (s\<lparr>ws_prepared := True\<rparr>)) = needs_spawn s"
  by (simp add: needs_spawn_def poll_def log_info_def split: option.splits)

lemma ensure_whisper_server_eq:
  "ensure_whisper_server ev s =
     (if needs_spawn s then
        (case popen_exc ev of
           Some e \<Rightarrow> (Inl e, log_info ''Starting WhisperLive backend server...'' s)
         | None \<Rightarrow> (Inr (), ensure_resume
              ((log_info ''Starting WhisperLive backend server...'' s)
                 \<lparr>procs := procs s @ [new_proc (sys_executable ev)],
                  whisper_server := Some (length (procs s))\<rparr>)))
      else (Inr (), s))"
  by (simp add: ensure_whisper_server_def ensure_begin_def Let_def log_info_def split: option.splits)

lemma handler_except_closes:
  "close_exc ev = None \<Longrightarrow>
     fst (handler_except ev e s) = Some ReturnedWs
     \<and> ws_closed (snd (handler_except ev e s))
     \<and> (ERROR_LEVEL, ''WebSocket error: '' @ str_exn e) \<in> set (logs (snd (handler_except ev e s)))
     \<and> server_ws (snd (handler_except ev e s)) = server_ws s
     \<and> to_server (snd (handler_except ev e s)) = to_server s
     \<and> to_client (snd (handler_except ev e s)) = to_client s"
  by (simp add: handler_except_def Let_def log_error_def log_info_def)

lemma ensure_keeps_relay:
  "server_ws (snd (ensure_whisper_server ev s)) = server_ws s
   \<and> to_server (snd (ensure_whisper_server ev s)) = to_server s
   \<and> to_client (snd (ensure_whisper_server ev s)) = to_client s"
  by (simp add: ensure_whisper_server_eq ensure_resume_def log_info_def split: option.splits)

text \<open>
  Claim C6, as stated, fails: when \<open>websockets.connect\<close> raises, the error is logged
  inside \<open>proxy_websocket\<close> and the handler returns without having closed the external
  connection.
\<close>

theorem connect_failure_not_closed:
  "fst (websocket_handler refused upgrade_get (init 9090)) = Some ReturnedWs
   \<and> \<not> ws_closed (snd (websocket_handler refused upgrade_get (init 9090)))
   \<and> (ERROR_LEVEL, ''Proxy error: Connection refused'')
        \<in> set (logs (snd (websocket_handler refused upgrade_get (init 9090))))"
  using upgrade_get_header
  by (simp add: websocket_handler_def refused_def calm_def init_def ensure_whisper_server_def
      ensure_begin_def needs_spawn_def ensure_resume_def handler_eval_simps proxy_websocket_def
      Let_def)

lemma relay_append: "relay (xs @ ys) s = relay ys (relay xs s)"
  by (simp add: relay_def)

lemma logs_relay_step: "set (logs s) \<subseteq> set (logs (relay_step e s))"
  by (cases e) (auto simp: client_to_server_msg_def c2s_except_def log_error_def
      server_to_client_msg_def s2c_except_def split: sum.splits pydata.splits)

lemma logs_relay: "set (logs s) \<subseteq> set (logs (relay evs s))"
proof (induction evs arbitrary: s)
  case Nil
  then show ?case by simp
next
  case (Cons e evs)
  show ?case using logs_relay_step [of s e] Cons.IH [of "relay_step e s"] by auto
qed

lemma c2s_fault_step:
  assumes "c2s s = Running" and "c2s_fault x = Some e"
  shows "c2s (relay_step x s) = Finished \<and> s2c (relay_step x s) = s2c s
     \<and> (ERROR_LEVEL, ''Client to server error: '' @ str_exn e) \<in> set (logs (relay_step x s))"
  using assms
  by (cases x) (auto simp: client_to_server_msg_def c2s_except_def log_error_def
      split: sum.splits if_splits)

lemma s2c_fault_step:
  assumes "s2c s = Running" and "s2c_fault x = Some e"
  shows "s2c (relay_step x s) = Finished \<and> c2s (relay_step x s) = c2s s
     \<and> (ERROR_LEVEL, ''Server to client error: '' @ str_exn e) \<in> set (logs (relay_step x s))"
proof (cases x)
  case (ServerMsg d r)
  then show ?thesis using assms
    by (cases d) (auto simp: server_to_client_msg_def s2c_except_def log_error_def
        send_str_def send_bytes_def)
next
  case (ServerRaise e')
  then show ?thesis using assms by (simp add: s2c_except_def log_error_def)
qed (use assms in simp_all)

lemma c2s_fault_logged:
  assumes "c2s (relay xs s) = Running" and "c2s_fault x = Some e"
  shows "c2s (relay (xs @ [x]) s) = Finished \<and> s2c (relay (xs @ [x]) s) = s2c (relay xs s)
     \<and> (ERROR_LEVEL, ''Client to server error: '' @ str_exn e) \<in> set (logs (relay (xs @ x # ys) s))"
proof -
  have "relay (xs @ x # ys) s = relay ys (relay_step x (relay xs s))"
    by (simp add: relay_append)
  then show ?thesis
    using c2s_fault_step [OF assms] logs_relay [of "relay_step x (relay xs s)" ys]
    by (auto simp: relay_append)
qed

lemma s2c_fault_logged:
  assumes "s2c (relay xs s) = Running" and "s2c_fault x = Some e"
  shows "s2c (relay (xs @ [x]) s) = Finished \<and> c2s (relay (xs @ [x]) s) = c2s (relay xs s)
     \<and> (ERROR_LEVEL, ''Server to client error: '' @ str_exn e) \<in> set (logs (relay (xs @ x # ys) s))"
proof -
  have "relay (xs @ x # ys) s = relay ys (relay_step x (relay xs s))"
    by (simp add: relay_append)
  then show ?thesis
    using s2c_fault_step [OF assms] logs_relay [of "relay_step x (relay xs s)" ys]
    by (auto simp: relay_append)
qed

lemma handler_relay_outcome:
  assumes "lower (headers_get (headers req) ''upgrade'' []) = ''websocket''"
    and "prepare_exc ev = None"
    and "\<not> needs_spawn s \<or> popen_exc ev = None"
    and "import_exc ev = None" and "connect_exc ev = None"
  shows "fst (websocket_handler ev req s) = (if gather_done (session_relay ev s) then Some ReturnedWs else None)
     \<and> set (logs (session_relay ev s)) \<subseteq> set (logs (snd (websocket_handler ev req s)))"
proof -
  define s1 where "s1 = log_info ''New WebSocket connection established'' (s\<lparr>ws_prepared := True\<rparr>)"
  have ns: "needs_spawn s1 = needs_spawn s" by (simp add: s1_def needs_spawn_established)
  have ok: "fst (ensure_whisper_server ev s1) = Inr ()"
    using assms(3) ns by (auto simp: ensure_whisper_server_eq)
  have sr: "session_relay ev s
      = relay (events ev) ((snd (ensure_whisper_server ev s1))\<lparr>server_ws := Connected, c2s := Running, s2c := Running\<rparr>)"
    by (simp add: session_relay_def s1_def)
  have p: "proxy_websocket ev (snd (ensure_whisper_server ev s1))
      = (if gather_done (session_relay ev s)
         then (Some (Inr ()), (session_relay ev s)\<lparr>server_ws := ConnClosed\<rparr>)
         else (None, session_relay ev s))"
    using assms(4,5) by (simp add: proxy_websocket_def sr Let_def)
  have h: "websocket_handler ev req s =
     (if gather_done (session_relay ev s)
      then (Some ReturnedWs, log_info ''WebSocket connection closed'' ((session_relay ev s)\<lparr>server_ws := ConnClosed\<rparr>))
      else (None, session_relay ev s))"
    using websocket_handler_upgrade [OF assms(1,2), of s] ok p
    by (simp add: s1_def Let_def)
  show ?thesis unfolding h by (auto simp: log_info_def)
qed

text \<open>
  Claim C6, amended. For an upgrade request whose \<open>prepare\<close> and \<open>close\<close> do not
  raise: when \<open>ensure_whisper_server\<close> fails (\<open>Popen\<close> raises), or an exception leaves
  \<open>proxy_websocket\<close> (its import raises), the handler logs it, closes the external
  connection and returns it, with no internal connection opened; a failure to connect to
  the backend is caught and logged inside \<open>proxy_websocket\<close> and the handler returns.
  An exception met by a relay loop that runs, raised by the iteration or by a send, is
  caught and logged in that loop and ends that loop only; the handler then returns
  exactly when both loops have ended, keeping what the relay logged. In no case does an
  exception leave the handler.
\<close>

theorem handler_catches_errors:
  assumes "lower (headers_get (headers req) ''upgrade'' []) = ''websocket''"
    and "prepare_exc ev = None" and "close_exc ev = None"
  shows "(needs_spawn s \<and> popen_exc ev = Some e \<longrightarrow>
            fst (websocket_handler ev req s) = Some ReturnedWs
            \<and> ws_closed (snd (websocket_handler ev req s))
            \<and> (ERROR_LEVEL, ''WebSocket error: '' @ str_exn e) \<in> set (logs (snd (websocket_handler ev req s)))
            \<and> server_ws (snd (websocket_handler ev req s)) = server_ws s
            \<and> to_server (snd (websocket_handler ev req s)) = to_server s
            \<and> to_client (snd (websocket_handler ev req s)) = to_client s)
     \<and> ((\<not> needs_spawn s \<or> popen_exc ev = None) \<and> import_exc ev = Some e \<longrightarrow>
            fst (websocket_handler ev req s) = Some ReturnedWs
            \<and> ws_closed (snd (websocket_handler ev req s))
            \<and> (ERROR_LEVEL, ''WebSocket error: '' @ str_exn e) \<in> set (logs (snd (websocket_handler ev req s)))
            \<and> server_ws (snd (websocket_handler ev req s)) = server_ws s)
     \<and> ((\<not> needs_spawn s \<or> popen_exc ev = None) \<and> import_exc ev = None \<and> connect_exc ev = Some e \<longrightarrow>
            fst (websocket_handler ev req s) = Some ReturnedWs
            \<and> (ERROR_LEVEL, ''Proxy error: '' @ str_exn e) \<in> set (logs (snd (websocket_handler ev req s)))
            \<and> server_ws (snd (websocket_handler ev req s)) = server_ws s)
     \<and> (c2s (relay xs t) = Running \<and> c2s_fault x = Some e \<longrightarrow>
            c2s (relay (xs @ [x]) t) = Finished
            \<and> s2c (relay (xs @ [x]) t) = s2c (relay xs t)
            \<and> (ERROR_LEVEL, ''Client to server error: '' @ str_exn e) \<in> set (logs (relay (xs @ x # ys) t)))
     \<and> (s2c (relay xs t) = Running \<and> s2c_fault x = Some e \<longrightarrow>
            s2c (relay (xs @ [x]) t) = Finished
            \<and> c2s (relay (xs @ [x]) t) = c2s (relay xs t)
            \<and> (ERROR_LEVEL, ''Server to client error: '' @ str_exn e) \<in> set (logs (relay (xs @ x # ys) t)))
     \<and> ((\<not> needs_spawn s \<or> popen_exc ev = None) \<and> import_exc ev = None \<and> connect_exc ev = None \<longrightarrow>
            fst (websocket_handler ev req s)
              = (if gather_done (session_relay ev s) then Some ReturnedWs else None)
            \<and> set (logs (session_relay ev s)) \<subseteq> set (logs (snd (websocket_handler ev req s))))
     \<and> (\<forall>x. fst (websocket_handler ev req s) \<noteq> Some (Raised x))"
proof -
  define s1 where "s1 = log_info ''New WebSocket connection established'' (s\<lparr>ws_prepared := True\<rparr>)"
  define r where "r = ensure_whisper_server ev s1"
  define p where "p = proxy_websocket ev (snd r)"
  have ns: "needs_spawn s1 = needs_spawn s" by (simp add: s1_def needs_spawn_established)
  have s1: "server_ws s1 = server_ws s" "to_server s1 = to_server s" "to_client s1 = to_client s"
    by (simp_all add: s1_def log_info_def)
  have keep: "server_ws (snd r) = server_ws s" "to_server (snd r) = to_server s" "to_client (snd r) = to_client s"
    using ensure_keeps_relay [of ev s1] s1 by (simp_all add: r_def)
  have h: "websocket_handler ev req s =
     (case fst r of
        Inl e \<Rightarrow> handler_except ev e (snd r)
      | Inr u \<Rightarrow>
          (case fst p of
             None \<Rightarrow> (None, snd p)
           | Some (Inl e) \<Rightarrow> handler_except ev e (snd p)
           | Some (Inr v) \<Rightarrow> (Some ReturnedWs, log_info ''WebSocket connection closed'' (snd p))))"
    using websocket_handler_upgrade [OF assms(1,2), of s]
    unfolding s1_def r_def p_def Let_def .
  have a: "needs_spawn s \<and> popen_exc ev = Some e \<longrightarrow>
            fst (websocket_handler ev req s) = Some ReturnedWs
            \<and> ws_closed (snd (websocket_handler ev req s))
            \<and> (ERROR_LEVEL, ''WebSocket error: '' @ str_exn e) \<in> set (logs (snd (websocket_handler ev req s)))
            \<and> server_ws (snd (websocket_handler ev req s)) = server_ws s
            \<and> to_server (snd (websocket_handler ev req s)) = to_server s
            \<and> to_client (snd (websocket_handler ev req s)) = to_client s"
  proof
    assume c: "needs_spawn s \<and> popen_exc ev = Some e"
    then have "fst r = Inl e" using ns by (simp add: r_def ensure_whisper_server_eq)
    then have "websocket_handler ev req s = handler_except ev e (snd r)" using h by simp
    then show "fst (websocket_handler ev req s) = Some ReturnedWs
            \<and> ws_closed (snd (websocket_handler ev req s))
            \<and> (ERROR_LEVEL, ''WebSocket error: '' @ str_exn e) \<in> set (logs (snd (websocket_handler ev req s)))
            \<and> server_ws (snd (websocket_handler ev req s)) = server_ws s
            \<and> to_server (snd (websocket_handler ev req s)) = to_server s
            \<and> to_client (snd (websocket_handler ev req s)) = to_client s"
      using handler_except_closes [OF assms(3), of e "snd r"] keep by simp
  qed
  have ok: "\<not> needs_spawn s \<or> popen_exc ev = None \<Longrightarrow> fst r = Inr ()"
    using ns by (auto simp: r_def ensure_whisper_server_eq)
  have b: "(\<not> needs_spawn s \<or> popen_exc ev = None) \<and> import_exc ev = Some e \<longrightarrow>
            fst (websocket_handler ev req s) = Some ReturnedWs
            \<and> ws_closed (snd (websocket_handler ev req s))
            \<and> (ERROR_LEVEL, ''WebSocket error: '' @ str_exn e) \<in> set (logs (snd (websocket_handler ev req s)))
            \<and> server_ws (snd (websocket_handler ev req s)) = server_ws s"
  proof
    assume c: "(\<not> needs_spawn s \<or> popen_exc ev = None) \<and> import_exc ev = Some e"
    then have pe: "p = (Some (Inl e), snd r)" by (simp add: p_def proxy_websocket_def)
    have "websocket_handler ev req s = handler_except ev e (snd r)"
      using h ok c pe by simp
    then show "fst (websocket_handler ev req s) = Some ReturnedWs
            \<and> ws_closed (snd (websocket_handler ev req s))
            \<and> (ERROR_LEVEL, ''WebSocket error: '' @ str_exn e) \<in> set (logs (snd (websocket_handler ev req s)))
            \<and> server_ws (snd (websocket_handler ev req s)) = server_ws s"
      using handler_except_closes [OF assms(3), of e "snd r"] keep by simp
  qed
  have c: "(\<not> needs_spawn s \<or> popen_exc ev = None) \<and> import_exc ev = None \<and> connect_exc ev = Some e \<longrightarrow>
            fst (websocket_handler ev req s) = Some ReturnedWs
            \<and> (ERROR_LEVEL, ''Proxy error: '' @ str_exn e) \<in> set (logs (snd (websocket_handler ev req s)))
            \<and> server_ws (snd (websocket_handler ev req s)) = server_ws s"
  proof
    assume c: "(\<not> needs_spawn s \<or> popen_exc ev = None) \<and> import_exc ev = None \<and> connect_exc ev = Some e"
    then have pe: "p = (Some (Inr ()), log_error (''Proxy error: '' @ str_exn e) (snd r))"
      by (simp add: p_def proxy_websocket_def)
    have "websocket_handler ev req s
        = (Some ReturnedWs, log_info ''WebSocket connection closed'' (log_error (''Proxy error: '' @ str_exn e) (snd r)))"
      using h ok c pe by simp
    then show "fst (websocket_handler ev req s) = Some ReturnedWs
            \<and> (ERROR_LEVEL, ''Proxy error: '' @ str_exn e) \<in> set (logs (snd (websocket_handler ev req s)))
            \<and> server_ws (snd (websocket_handler ev req s)) = server_ws s"
      using keep by (simp add: log_info_def log_error_def)
  qed
  have d: "\<forall>x. fst (websocket_handler ev req s) \<noteq> Some (Raised x)"
    using h handler_except_closes [OF assms(3)]
    by (auto split: sum.splits option.splits)
  have f1: "c2s (relay xs t) = Running \<and> c2s_fault x = Some e \<longrightarrow>
            c2s (relay (xs @ [x]) t) = Finished
            \<and> s2c (relay (xs @ [x]) t) = s2c (relay xs t)
            \<and> (ERROR_LEVEL, ''Client to server error: '' @ str_exn e) \<in> set (logs (relay (xs @ x # ys) t))"
    using c2s_fault_logged [of xs t x e ys] by blast
  have f2: "s2c (relay xs t) = Running \<and> s2c_fault x = Some e \<longrightarrow>
            s2c (relay (xs @ [x]) t) = Finished
            \<and> c2s (relay (xs @ [x]) t) = c2s (relay xs t)
            \<and> (ERROR_LEVEL, ''Server to client error: '' @ str_exn e) \<in> set (logs (relay (xs @ x # ys) t))"
    using s2c_fault_logged [of xs t x e ys] by blast
  have g: "(\<not> needs_spawn s \<or> popen_exc ev = None) \<and> import_exc ev = None \<and> connect_exc ev = None \<longrightarrow>
            fst (websocket_handler ev req s)
              = (if gather_done (session_relay ev s) then Some ReturnedWs else None)
            \<and> set (logs (session_relay ev s)) \<subseteq> set (logs (snd (websocket_handler ev req s)))"
    using handler_relay_outcome [OF assms(1,2), of s] by blast
  from a b c d f1 f2 g show ?thesis by blast
qed

theorem handler_catches_errors_witness:
  "lower (headers_get (headers upgrade_get) ''upgrade'' []) = ''websocket''
   \<and> prepare_exc no_interpreter = None \<and> close_exc no_interpreter = None
   \<and> needs_spawn (init 9090) \<and> popen_exc no_interpreter = Some (Exception ''No such file or directory'')
   \<and> fst (websocket_handler no_interpreter upgrade_get (init 9090)) = Some ReturnedWs
   \<and> ws_closed (snd (websocket_handler no_interpreter upgrade_get (init 9090)))
   \<and> (ERROR_LEVEL, ''WebSocket error: No such file or directory'')
        \<in> set (logs (snd (websocket_handler no_interpreter upgrade_get (init 9090))))
   \<and> prepare_exc relay_fault = None \<and> close_exc relay_fault = None \<and> popen_exc relay_fault = None
   \<and> import_exc relay_fault = None \<and> connect_exc relay_fault = None
   \<and> c2s (relay [] relaying) = Running
   \<and> c2s_fault (ClientRaise (Exception ''boom'')) = Some (Exception ''boom'')
   \<and> c2s (relay ([] @ [ClientRaise (Exception ''boom'')]) relaying) = Finished
   \<and> (ERROR_LEVEL, ''Client to server error: boom'')
        \<in> set (logs (relay ([] @ ClientRaise (Exception ''boom'') # [ServerStop]) relaying))
   \<and> gather_done (session_relay relay_fault (init 9090))
   \<and> fst (websocket_handler relay_fault upgrade_get (init 9090)) = Some ReturnedWs"
proof -
  have e: "prepare_exc no_interpreter = None" "close_exc no_interpreter = None"
    "popen_exc no_interpreter = Some (Exception ''No such file or directory'')"
    by (simp_all add: no_interpreter_def calm_def)
  have n: "needs_spawn (init 9090)" by (simp add: needs_spawn_def init_def)
  have first: "fst (websocket_handler no_interpreter upgrade_get (init 9090)) = Some ReturnedWs
   \<and> ws_closed (snd (websocket_handler no_interpreter upgrade_get (init 9090)))
   \<and> (ERROR_LEVEL, ''WebSocket error: No such file or directory'')
        \<in> set (logs (snd (websocket_handler no_interpreter upgrade_get (init 9090))))"
    using handler_catches_errors [OF upgrade_get_header e(1) e(2), of "init 9090" "Exception ''No such file or directory''"]
      e n
    by simp
  have r: "prepare_exc relay_fault = None" "close_exc relay_fault = None" "popen_exc relay_fault = None"
    "import_exc relay_fault = None" "connect_exc relay_fault = None"
    by (simp_all add: relay_fault_def calm_def)
  have run: "c2s (relay [] relaying) = Running" by (simp add: relaying_def)
  have flt: "c2s_fault (ClientRaise (Exception ''boom'')) = Some (Exception ''boom'')" by simp
  have gd: "gather_done (session_relay relay_fault (init 9090))"
    by (simp add: session_relay_def relay_fault_def calm_def init_def ensure_whisper_server_eq
        needs_spawn_def ensure_resume_def log_info_def log_error_def gather_done_def c2s_except_def)
  have second: "c2s (relay ([] @ [ClientRaise (Exception ''boom'')]) relaying) = Finished
   \<and> (ERROR_LEVEL, ''Client to server error: boom'')
        \<in> set (logs (relay ([] @ ClientRaise (Exception ''boom'') # [ServerStop]) relaying))
   \<and> fst (websocket_handler relay_fault upgrade_get (init 9090)) = Some ReturnedWs"
    using handler_catches_errors [OF upgrade_get_header r(1) r(2), of "init 9090" "Exception ''boom''"
        "[]" relaying "ClientRaise (Exception ''boom'')" "[ServerStop]"]
      r run flt gd
    by (simp add: relaying_def init_def c2s_except_def log_error_def)
  show ?thesis using upgrade_get_header e n first r run flt gd second by blast
qed

subsection \<open>Concurrent upgrade requests\<close>

lemma run_sched_Nil [simp]: "run_sched exe [] c = c"
  by (simp add: run_sched_def)

lemma run_sched_Cons [simp]: "run_sched exe (e # evs) c = run_sched exe evs (sched_step exe e c)"
  by (simp add: run_sched_def)

lemma ensure_begin_cases:
  "ensure_begin exe po s =
     (if needs_spawn s then
        (case po of
           Some e \<Rightarrow> (Inl e, log_info ''Starting WhisperLive backend server...'' s)
         | None \<Rightarrow> (Inr True, (log_info ''Starting WhisperLive backend server...'' s)
                       \<lparr>procs := procs s @ [new_proc exe], whisper_server := Some (length (procs s))\<rparr>))
      else (Inr False, s))"
  by (simp add: ensure_begin_def Let_def log_info_def split: option.splits)

lemma tracked_last_log [simp]: "tracked_last (log_info m s) = tracked_last s"
  by (simp add: tracked_last_def log_info_def)

lemma tracked_last_resume [simp]: "tracked_last (ensure_resume s) = tracked_last s"
  by (simp add: tracked_last_def ensure_resume_def log_info_def)

lemma tracked_last_spawn:
  assumes "tracked_last s" and "needs_spawn s"
  shows "tracked_last (s\<lparr>procs := procs s @ [new_proc exe], whisper_server := Some (length (procs s))\<rparr>)"
proof (cases "whisper_server s")
  case None
  then show ?thesis using assms(1) by (auto simp: tracked_last_def)
next
  case (Some h)
  then obtain qs q where p: "procs s = qs @ [q]" "h = length qs" "\<forall>x \<in> set qs. \<not> alive x"
    using assms(1) by (auto simp: tracked_last_def)
  have "\<not> alive q"
    using assms(2) Some p by (simp add: needs_spawn_def poll_def alive_def)
  then have "\<forall>x \<in> set (procs s). \<not> alive x" using p by simp
  then show ?thesis by (simp add: tracked_last_def)
qed

lemma tracked_last_ensure_begin:
  "tracked_last s \<Longrightarrow> tracked_last (snd (ensure_begin exe po s))"
  using tracked_last_spawn [of s exe]
  by (auto simp: ensure_begin_cases tracked_last_def log_info_def split: option.splits)

lemma tracked_last_exit:
  assumes "tracked_last s"
  shows "tracked_last (proc_exit h rc s)"
proof (cases "h < length (procs s) \<and> returncode (procs s ! h) = None")
  case False
  then show ?thesis using assms by (auto simp: proc_exit_def)
next
  case True
  then obtain qs q where p: "procs s = qs @ [q]" "whisper_server s = Some (length qs)" "\<forall>x \<in> set qs. \<not> alive x"
    using assms by (auto simp: tracked_last_def)
  have "h = length qs"
  proof (rule ccontr)
    assume "h \<noteq> length qs"
    then have "h < length qs" using True p by simp
    then have "procs s ! h \<in> set qs" using p by (simp add: nth_append)
    then show False using p True by (auto simp: alive_def)
  qed
  then have "procs (proc_exit h rc s) = qs @ [q\<lparr>returncode := Some rc\<rparr>]"
    using True p by (simp add: proc_exit_def)
  moreover have "whisper_server (proc_exit h rc s) = Some (length qs)"
    using p by (simp add: proc_exit_def)
  ultimately show ?thesis using p by (auto simp: tracked_last_def)
qed

lemma tracked_last_step:
  "tracked_last (fst c) \<Longrightarrow> tracked_last (fst (sched_step exe e c))"
proof (cases c)
  case (Pair s ts)
  assume t: "tracked_last (fst c)"
  show ?thesis
  proof (cases e)
    case (Resume i po)
    show ?thesis
      using t Pair Resume tracked_last_ensure_begin [of s exe po]
      by (auto split: pc.splits prod.splits sum.splits bool.splits)
  next
    case (ProcExit h rc)
    then show ?thesis using t Pair tracked_last_exit by simp
  qed
qed

lemma tracked_last_run:
  "tracked_last (fst c) \<Longrightarrow> tracked_last (fst (run_sched exe evs c))"
  by (induction evs arbitrary: c) (simp_all add: tracked_last_step)

lemma tracked_last_live: "tracked_last s \<Longrightarrow> length (live_procs s) \<le> 1"
  by (auto simp: tracked_last_def live_procs_def)

lemma filter_update_le: "length (filter P (xs[i := x])) \<le> Suc (length (filter P xs))"
proof (induction xs arbitrary: i)
  case Nil
  then show ?case by simp
next
  case (Cons a xs)
  then show ?case by (cases i) (auto simp: le_SucI)
qed

lemma dead_step:
  "length (dead_procs (fst (sched_step exe e c)))
     \<le> length (dead_procs (fst c)) + (if is_exit e then 1 else 0)"
proof (cases c)
  case (Pair s ts)
  show ?thesis
  proof (cases e)
    case (Resume i po)
    then show ?thesis using Pair
      by (auto simp: ensure_begin_cases dead_procs_def log_info_def ensure_resume_def new_proc_def alive_def
          split: pc.splits option.splits)
  next
    case (ProcExit h rc)
    then show ?thesis using Pair filter_update_le [of "\<lambda>q. \<not> alive q" "procs s" h]
      by (auto simp: proc_exit_def dead_procs_def)
  qed
qed

lemma dead_run:
  "length (dead_procs (fst (run_sched exe evs c)))
     \<le> length (dead_procs (fst c)) + length (filter is_exit evs)"
proof (induction evs arbitrary: c)
  case Nil
  then show ?case by simp
next
  case (Cons e evs)
  show ?case using Cons.IH [of "sched_step exe e c"] dead_step [of exe e c]
    by (cases "is_exit e") simp_all
qed

lemma procs_split: "length (procs s) = length (live_procs s) + length (dead_procs s)"
  by (simp add: live_procs_def dead_procs_def sum_length_filter_compl)

lemma procs_grow_step: "length (procs (fst c)) \<le> length (procs (fst (sched_step exe e c)))"
proof (cases c)
  case (Pair s ts)
  show ?thesis
  proof (cases e)
    case (Resume i po)
    then show ?thesis using Pair
      by (auto simp: ensure_begin_cases log_info_def ensure_resume_def split: pc.splits option.splits)
  next
    case (ProcExit h rc)
    then show ?thesis using Pair by (simp add: proc_exit_def)
  qed
qed

lemma procs_grow_run: "length (procs (fst c)) \<le> length (procs (fst (run_sched exe evs c)))"
proof (induction evs arbitrary: c)
  case Nil
  then show ?case by simp
next
  case (Cons e evs)
  show ?case using Cons.IH [of "sched_step exe e c"] procs_grow_step [of c exe e] by simp
qed

lemma tasks_length_step: "length (snd (sched_step exe e c)) = length (snd c)"
proof (cases c)
  case (Pair s ts)
  then show ?thesis
    by (cases e) (auto split: pc.splits prod.splits sum.splits bool.splits)
qed

lemma unstarted_step:
  assumes "unstarted c" and "\<not> is_exit e" and "\<not> popen_fails e"
  shows "unstarted (sched_step exe e c)"
proof (cases c)
  case (Pair s ts)
  from assms(2) obtain i po where e: "e = Resume i po" by (cases e) auto
  with assms(3) have po: "po = None" by (cases po) auto
  show ?thesis
  proof (cases "procs s = []")
    case False
    then have "procs (fst (sched_step exe e c)) \<noteq> []"
      using procs_grow_step [of c exe e] Pair by auto
    then show ?thesis by (cases "sched_step exe e c") simp
  next
    case True
    then have n: "whisper_server s = None" "\<forall>t \<in> set ts. t = AtEnsure"
      using assms(1) Pair by simp_all
    show ?thesis
    proof (cases "i < length ts")
      case False
      then show ?thesis using Pair e True n by simp
    next
      case lt: True
      then have "ts ! i = AtEnsure" using n by simp
      then show ?thesis using Pair e po lt n(1)
        by (simp add: ensure_begin_cases needs_spawn_def log_info_def)
    qed
  qed
qed

lemma first_resume_spawns:
  assumes "unstarted c" and "resumes (length (snd c)) e" and "\<not> popen_fails e"
  shows "procs (fst (sched_step exe e c)) \<noteq> []"
proof (cases c)
  case (Pair s ts)
  from assms(2) obtain i po where e: "e = Resume i po" and lt: "i < length ts"
    using Pair by (cases e) auto
  with assms(3) have po: "po = None" by (cases po) auto
  show ?thesis
  proof (cases "procs s = []")
    case False
    then show ?thesis using procs_grow_step [of c exe e] Pair by auto
  next
    case True
    then have n: "whisper_server s = None" "ts ! i = AtEnsure"
      using assms(1) Pair lt by simp_all
    then show ?thesis using Pair e po lt
      by (simp add: ensure_begin_cases needs_spawn_def log_info_def)
  qed
qed

lemma some_resume_spawns:
  assumes "unstarted c" and "\<forall>e \<in> set evs. \<not> is_exit e \<and> \<not> popen_fails e"
    and "\<exists>e \<in> set evs. resumes (length (snd c)) e"
  shows "procs (fst (run_sched exe evs c)) \<noteq> []"
  using assms
proof (induction evs arbitrary: c)
  case Nil
  then show ?case by simp
next
  case (Cons e evs)
  have u: "unstarted (sched_step exe e c)"
    using unstarted_step [of c e exe] Cons.prems by simp
  show ?case
  proof (cases "resumes (length (snd c)) e")
    case True
    then have "procs (fst (sched_step exe e c)) \<noteq> []"
      using first_resume_spawns [of c e exe] Cons.prems by simp
    then show ?thesis
      using procs_grow_run [of "sched_step exe e c" exe evs] by auto
  next
    case False
    then have "\<exists>x \<in> set evs. resumes (length (snd (sched_step exe e c))) x"
      using Cons.prems(3) by (simp add: tasks_length_step)
    then show ?thesis using Cons.IH [OF u] Cons.prems(2) by simp
  qed
qed

text \<open>
  Claim C1. \<open>n\<close> upgrade requests are accepted before any backend exists, and their
  tasks are resumed in any order, with processes ending at any moment. The test and the
  spawn of \<open>ensure_whisper_server\<close> run in one piece of the event loop, so: at every
  moment at most one spawned process is alive; a further process is spawned only after
  an earlier one has ended (the number spawned is at most one more than the number of
  exits); and when no process ends, \<open>Popen\<close> does not raise and at least one of the
  tasks has run, exactly one process has been spawned.
\<close>

theorem one_backend_for_concurrent_upgrades:
  "length (live_procs (fst (run_sched exe evs (arrivals p n)))) \<le> 1
   \<and> length (procs (fst (run_sched exe evs (arrivals p n)))) \<le> 1 + length (filter is_exit evs)
   \<and> ((\<forall>e \<in> set evs. \<not> is_exit e \<and> \<not> popen_fails e) \<and> (\<exists>e \<in> set evs. resumes n e)
        \<longrightarrow> length (procs (fst (run_sched exe evs (arrivals p n)))) = 1)"
proof -
  let ?s = "fst (run_sched exe evs (arrivals p n))"
  have t0: "tracked_last (fst (arrivals p n))"
    by (simp add: arrivals_def tracked_last_def init_def)
  have live: "length (live_procs ?s) \<le> 1"
    using tracked_last_live [OF tracked_last_run [OF t0]] .
  have "length (dead_procs (fst (arrivals p n))) = 0"
    by (simp add: arrivals_def dead_procs_def init_def)
  then have dead: "length (dead_procs ?s) \<le> length (filter is_exit evs)"
    using dead_run [of exe evs "arrivals p n"] by simp
  have bound: "length (procs ?s) \<le> 1 + length (filter is_exit evs)"
    using live dead procs_split [of ?s] by simp
  have one: "(\<forall>e \<in> set evs. \<not> is_exit e \<and> \<not> popen_fails e) \<and> (\<exists>e \<in> set evs. resumes n e)
        \<longrightarrow> length (procs ?s) = 1"
  proof
    assume a: "(\<forall>e \<in> set evs. \<not> is_exit e \<and> \<not> popen_fails e) \<and> (\<exists>e \<in> set evs. resumes n e)"
    have u: "unstarted (arrivals p n)" by (simp add: arrivals_def init_def)
    have l: "length (snd (arrivals p n)) = n" by (simp add: arrivals_def)
    have "procs ?s \<noteq> []"
      using some_resume_spawns [OF u, of evs exe] a l by simp
    moreover have "filter is_exit evs = []" using a by (simp add: filter_empty_conv)
    ultimately show "length (procs ?s) = 1" using bound by (cases "procs ?s") simp_all
  qed
  from live bound one show ?thesis by blast
qed

theorem one_backend_for_concurrent_upgrades_witness:
  "filter is_exit three_at_once = []
   \<and> filter popen_fails three_at_once = []
   \<and> resumes 3 (hd three_at_once)
   \<and> length (procs (fst (run_sched ''python3'' three_at_once (arrivals 9090 3)))) = 1
   \<and> length (live_procs (fst (run_sched ''python3'' three_at_once (arrivals 9090 3)))) \<le> 1"
proof -
  have a: "\<forall>e \<in> set three_at_once. \<not> is_exit e \<and> \<not> popen_fails e"
    by (simp add: three_at_once_def)
  have b: "\<exists>e \<in> set three_at_once. resumes 3 e"
    by (simp add: three_at_once_def)
  have c: "filter is_exit three_at_once = []" "filter popen_fails three_at_once = []"
    "resumes 3 (hd three_at_once)"
    by (simp_all add: three_at_once_def)
  show ?thesis
    using one_backend_for_concurrent_upgrades [of "''python3''" three_at_once 9090 3] a b c by simp
qed

subsection \<open>The upload endpoint\<close>

lemma allowed_clip: "allowed_file ''clip.WAV''"
  by code_simp

text \<open>
  Claim C10, as stated, fails: a POST without an audio part whose \<open>temperature\<close> field
  is \<open>abc\<close>, which \<open>float\<close> rejects, is answered 400 \<open>No audio file provided\<close>; the
  field is never parsed.
\<close>

theorem bad_temperature_without_audio_is_400:
  "map_of (form post_no_audio) ''temperature'' = Some ''abc''
   \<and> py_float sample_whisper ''abc''
       = Inl (Exception (''could not convert string to float: '' @ [CHR 0x27] @ ''abc'' @ [CHR 0x27]))
   \<and> transcribe_audio sample_whisper post_no_audio = jsonify (error_body ''No audio file provided'') 400
   \<and> status (transcribe_audio sample_whisper post_no_audio) = 400"
  by (simp add: transcribe_audio_def post_no_audio_def sample_whisper_def sample_float_def jsonify_def)

text \<open>
  Claim C10, amended. For every POST that passes the three checks on the upload (an
  \<open>audio\<close> part, with a file name, of an allowed extension) and whose \<open>temperature\<close>
  field is present but rejected by \<open>float\<close> with the exception \<open>e\<close>, the answer is 500
  with the body \<open>error: Transcription failed: str(e)\<close>, not a 400: the exception is
  caught by the outer \<open>except Exception\<close>.
\<close>

theorem bad_temperature_is_500:
  assumes "map_of (files req) ''audio'' = Some file"
    and "filename file \<noteq> []"
    and "allowed_file (filename file)"
    and "map_of (form req) ''temperature'' = Some t"
    and "py_float we t = Inl e"
  shows "transcribe_audio we req = jsonify (error_body (''Transcription failed: '' @ str_exn e)) 500
     \<and> status (transcribe_audio we req) = 500
     \<and> body (transcribe_audio we req) = JObj [(''error'', JStr (''Transcription failed: '' @ str_exn e))]"
  using assms
  by (simp add: transcribe_audio_def transcription_failed_def jsonify_def error_body_def Let_def)

theorem bad_temperature_is_500_witness:
  "map_of (files post_bad_temperature) ''audio'' = Some \<lparr>filename = ''clip.WAV'', content = [82, 73, 70, 70]\<rparr>
   \<and> allowed_file ''clip.WAV''
   \<and> map_of (form post_bad_temperature) ''temperature'' = Some ''abc''
   \<and> status (transcribe_audio sample_whisper post_bad_temperature) = 500
   \<and> body (transcribe_audio sample_whisper post_bad_temperature)
       = JObj [(''error'', JStr (''Transcription failed: could not convert string to float: '' @ [CHR 0x27] @ ''abc'' @ [CHR 0x27]))]"
proof -
  have f: "map_of (files post_bad_temperature) ''audio'' = Some \<lparr>filename = ''clip.WAV'', content = [82, 73, 70, 70]\<rparr>"
    by (simp add: post_bad_temperature_def)
  have n: "filename \<lparr>filename = ''clip.WAV'', content = [82, 73, 70, 70 :: 8 word]\<rparr> \<noteq> []" by simp
  have a: "allowed_file (filename \<lparr>filename = ''clip.WAV'', content = [82, 73, 70, 70 :: 8 word]\<rparr>)"
    using allowed_clip by simp
  have t: "map_of (form post_bad_temperature) ''temperature'' = Some ''abc''"
    by (simp add: post_bad_temperature_def)
  have p: "py_float sample_whisper ''abc''
      = Inl (Exception (''could not convert string to float: '' @ [CHR 0x27] @ ''abc'' @ [CHR 0x27]))"
    by (simp add: sample_whisper_def sample_float_def)
  show ?thesis
    using bad_temperature_is_500 [OF f n a t p] f t allowed_clip
    by (simp add: jsonify_def error_body_def)
qed

end
